theory Spec2Isabelle
  imports Main "HOL-Library.AList"
begin

section \<open>The host the supervisor runs on\<close>

text \<open>
  The dev-server supervisor (\<^verbatim>\<open>src/processManager.js\<close>) reads the file system, the
  port space, its own environment and its configuration. They are taken as one record of
  the host; the library functions of \<^verbatim>\<open>path\<close> are a parameter of that record.

  A process id is \<^verbatim>\<open>child.pid\<close>: a number, or \<^verbatim>\<open>undefined\<close> when the spawn failed.

  \<open>configApp\<close> is \<^verbatim>\<open>config.app\<close>, where \<^verbatim>\<open>config\<close> is what \<^verbatim>\<open>require('./config')\<close> gives
  \<^verbatim>\<open>processManager.js\<close>. The repository holds two configuration modules. \<^verbatim>\<open>src/config.js\<close>,
  the file that \<^verbatim>\<open>./config\<close> names, exports \<^verbatim>\<open>loadConfig\<close>, \<^verbatim>\<open>validateConfig\<close> and three
  getters and no \<^verbatim>\<open>app\<close>: there \<^verbatim>\<open>config.app\<close> is \<^verbatim>\<open>undefined\<close> (\<open>None\<close>) and reading a
  property of it throws a \<^verbatim>\<open>TypeError\<close>. The other module exports the loaded configuration
  itself ("for processManager.js compatibility"), whose \<^verbatim>\<open>app\<close> holds \<^verbatim>\<open>defaultPort\<close> and
  \<^verbatim>\<open>startupTimeout\<close> (\<open>Some\<close>).
\<close>

datatype pid = Pid nat | Undefined

type_synonym handle = nat

record appConfig =
  defaultPort :: nat
  startupTimeout :: nat

datatype envval = Str string | Num nat

record manifest =
  scripts :: "(string \<times> string) list option"

record host =
  resolveAbsolutePath :: "string \<Rightarrow> string"
  existsSync :: "string \<Rightarrow> bool"
  access :: "string \<Rightarrow> bool"
  readPackageJson :: "string \<Rightarrow> manifest option"
  portBindable :: "nat \<Rightarrow> bool"
  processEnv :: "string \<rightharpoonup> envval"
  isWindows :: bool
  configApp :: "appConfig option"

record options =
  opt_port :: "nat option"
  opt_env :: "(string \<rightharpoonup> envval) option"

text \<open>
  Every value the source throws or rejects with. \<open>ExitCode\<close> is the argument the
  \<^verbatim>\<open>'exit'\<close> event passes to \<^verbatim>\<open>onError\<close>: the exit code, or \<^verbatim>\<open>null\<close> when a
  signal ended the child.
\<close>

datatype err =
    DirectoryDoesNotExist string
  | NoPackageJson string
  | NoAvailablePorts nat nat
  | ReferenceError string
  | TypeError string
  | NoProcessFound pid
  | StartupTimedOut nat
  | PortWaitTimedOut nat
  | ExitCode "int option"
  | ChildErrored
  | PortCheckErrored

definition path_join :: "string \<Rightarrow> string \<Rightarrow> string" where
  "path_join dir name = dir @ ''/'' @ name"

subsection \<open>utils/pathResolver.js\<close>

definition validateProjectPath :: "host \<Rightarrow> string \<Rightarrow> err + bool" where
  "validateProjectPath hst projectPath =
     (let absolutePath = resolveAbsolutePath hst projectPath;
          packageJsonPath = path_join absolutePath ''package.json''
      in if \<not> existsSync hst absolutePath then Inl (DirectoryDoesNotExist absolutePath)
         else if \<not> existsSync hst packageJsonPath then Inl (NoPackageJson absolutePath)
         else Inr True)"

definition InvalidProjectError :: "err \<Rightarrow> bool" where
  "InvalidProjectError e =
     (case e of DirectoryDoesNotExist p \<Rightarrow> True | NoPackageJson p \<Rightarrow> True | _ \<Rightarrow> False)"

subsection \<open>utils/portChecker.js\<close>

text \<open>
  \<^verbatim>\<open>isPortAvailable\<close> binds a listener and releases it; it resolves \<^verbatim>\<open>true\<close> when the
  bind succeeded and \<^verbatim>\<open>false\<close> on every error, so it never throws.
\<close>

definition isPortAvailable :: "host \<Rightarrow> nat \<Rightarrow> bool" where
  "isPortAvailable hst port = portBindable hst port"

function findAvailablePort_loop :: "host \<Rightarrow> nat \<Rightarrow> nat \<Rightarrow> nat \<Rightarrow> err + nat" where
  "findAvailablePort_loop hst startPort endPort port =
     (if port \<le> endPort
      then (if isPortAvailable hst port then Inr port
            else findAvailablePort_loop hst startPort endPort (Suc port))
      else Inl (NoAvailablePorts startPort endPort))"
  by pat_completeness auto
termination
  by (relation "measure (\<lambda>(hst, startPort, endPort, port). Suc endPort - port)") auto

definition findAvailablePort :: "host \<Rightarrow> nat \<Rightarrow> nat \<Rightarrow> err + nat" where
  "findAvailablePort hst startPort endPort = findAvailablePort_loop hst startPort endPort startPort"

subsection \<open>processManager.js: what start does before it spawns\<close>

text \<open>
  The names bound at module level in \<^verbatim>\<open>processManager.js\<close> (its \<^verbatim>\<open>require\<close> lines and
  its class). A call of a bare identifier that is not among them throws a
  \<^verbatim>\<open>ReferenceError\<close>: methods of a class are not in scope under their own name.
\<close>

definition processManager_bindings :: "string list" where
  "processManager_bindings =
     [''spawn'', ''path'', ''fs'', ''EventEmitter'', ''isPortAvailable'', ''waitForPort'',
      ''validateProjectPath'', ''resolveAbsolutePath'', ''logger'', ''config'',
      ''DevServerManager'']"

definition mgr_findAvailablePort :: "host \<Rightarrow> nat \<Rightarrow> err + nat" where
  "mgr_findAvailablePort hst startPort =
     (if isPortAvailable hst startPort then Inr startPort
      else if ''findAvailablePort'' \<in> set processManager_bindings
           then findAvailablePort hst startPort (startPort + 100)
           else Inl (ReferenceError ''findAvailablePort''))"

text \<open>
  \<^verbatim>\<open>this.findAvailablePort()\<close> with no argument: the default parameter
  \<^verbatim>\<open>config.app.defaultPort\<close> is evaluated first, and throws when \<^verbatim>\<open>config.app\<close> is
  \<^verbatim>\<open>undefined\<close>, before any port is probed.
\<close>

definition mgr_findAvailablePort_default :: "host \<Rightarrow> err + nat" where
  "mgr_findAvailablePort_default hst =
     (case configApp hst of
        None \<Rightarrow> Inl (TypeError ''defaultPort'')
      | Some app \<Rightarrow> mgr_findAvailablePort hst (defaultPort app))"

text \<open>\<^verbatim>\<open>options.port || await this.findAvailablePort()\<close>: a port of 0 is falsy.\<close>

definition resolvePort :: "host \<Rightarrow> options \<Rightarrow> err + nat" where
  "resolvePort hst opts =
     (case opt_port opts of
        Some p \<Rightarrow> if p \<noteq> 0 then Inr p else mgr_findAvailablePort_default hst
      | None \<Rightarrow> mgr_findAvailablePort_default hst)"

definition hasDevScript :: "manifest \<Rightarrow> bool" where
  "hasDevScript m =
     (case scripts m of
        None \<Rightarrow> False
      | Some s \<Rightarrow> (case map_of s ''dev'' of None \<Rightarrow> False | Some v \<Rightarrow> v \<noteq> []))"

definition detectPackageManager :: "host \<Rightarrow> string \<Rightarrow> string" where
  "detectPackageManager hst projectPath =
     (let absolutePath = resolveAbsolutePath hst projectPath;
          hasPnpmLock = access hst (path_join absolutePath ''pnpm-lock.yaml'');
          hasYarnLock = access hst (path_join absolutePath ''yarn.lock'');
          hasPackageLock = access hst (path_join absolutePath ''package-lock.json'')
      in if hasPnpmLock then ''pnpm''
         else if hasYarnLock then ''yarn''
         else if hasPackageLock then ''npm''
         else (case readPackageJson hst (path_join absolutePath ''package.json'') of
                 Some packageJson \<Rightarrow> if hasDevScript packageJson then ''npm'' else ''npm''
               | None \<Rightarrow> ''npm''))"

text \<open>
  The object spread \<^verbatim>\<open>{...process.env, PORT, BROWSER, FORCE_COLOR, ...options.env}\<close>:
  a later entry overwrites an earlier one with the same key, and spreading
  \<^verbatim>\<open>undefined\<close> adds nothing.
\<close>

definition injectedEnv :: "nat \<Rightarrow> (string \<rightharpoonup> envval)" where
  "injectedEnv port =
     [''PORT'' \<mapsto> Num port, ''BROWSER'' \<mapsto> Str ''none'', ''FORCE_COLOR'' \<mapsto> Str ''1'']"

definition composeEnv :: "host \<Rightarrow> nat \<Rightarrow> options \<Rightarrow> (string \<rightharpoonup> envval)" where
  "composeEnv hst port opts =
     (processEnv hst ++ injectedEnv port) ++ (case opt_env opts of None \<Rightarrow> Map.empty | Some e \<Rightarrow> e)"

definition spawnCommand :: "host \<Rightarrow> string \<Rightarrow> string" where
  "spawnCommand hst packageManager = (if isWindows hst then ''cmd.exe'' else packageManager)"

definition spawnArgs :: "host \<Rightarrow> string \<Rightarrow> string list" where
  "spawnArgs hst packageManager =
     (if isWindows hst then [''/c'', packageManager @ ''.cmd'', ''run'', ''dev'']
      else [''run'', ''dev''])"

section \<open>The supervisor's state\<close>

text \<open>
  A child process object of Node, with the listeners the supervisor attaches to it. The
  closures of one \<^verbatim>\<open>start\<close> call (\<^verbatim>\<open>timeout\<close>, \<^verbatim>\<open>onError\<close>, \<^verbatim>\<open>checkReady\<close>, the
  emitter of \<^verbatim>\<open>waitForPort\<close> and the promise they settle) belong to the child that call
  spawned, so they are fields of the child:
  \<^item> \<open>c_timeout\<close>: the startup timer, with its delay, while it is armed;
  \<^item> \<open>c_exitL\<close>, \<open>c_errorL\<close>: \<^verbatim>\<open>onError\<close> is attached to \<^verbatim>\<open>'exit'\<close>, to \<^verbatim>\<open>'error'\<close>;
  \<^item> \<open>c_stdoutL\<close>: \<^verbatim>\<open>checkReady\<close> is attached to the \<^verbatim>\<open>'data'\<close> event of stdout;
  \<^item> \<open>c_poller\<close>: \<^verbatim>\<open>checkPort\<close> of \<^verbatim>\<open>waitForPort\<close> still reschedules itself (it has
    emitted nothing yet); its three listeners are attached for good;
  \<^item> \<open>c_ready\<close>: the state of the promise \<^verbatim>\<open>start\<close> awaits;
  \<^item> \<open>c_stopWaits\<close>: one entry for each \<^verbatim>\<open>stop\<close> call on this child, in call order: the
    id its \<^verbatim>\<open>'close'\<close> listener deletes, and whether its promise is resolved;
  \<^item> \<open>c_signals\<close>: the signals \<^verbatim>\<open>kill\<close> has sent to the process, oldest first.
  The listener of line 118 (\<^verbatim>\<open>'close'\<close>: delete the id from the registry) is attached to
  every child for its whole life and has no field.

  The phases of a child object. A spawn that succeeds gives a \<open>Running\<close> child, which
  emits \<^verbatim>\<open>'exit'\<close> (\<open>Exited\<close>) and then \<^verbatim>\<open>'close'\<close> (\<open>Closed\<close>). A spawn that fails
  gives a child with no pid (\<open>SpawnFailed\<close>), which emits \<^verbatim>\<open>'error'\<close> (\<open>Errored\<close>) and
  then \<^verbatim>\<open>'close'\<close>, with no \<^verbatim>\<open>'exit'\<close>.
\<close>

datatype signal = SIGTERM | SIGKILL

datatype phase = SpawnFailed | Errored | Running | Exited | Closed

datatype outcome = Pending | Ready | Failed err

record processInfo =
  pi_id :: pid
  pi_port :: nat
  pi_projectPath :: string
  pi_startTime :: nat
  pi_process :: handle

record publicInfo =
  pub_id :: pid
  pub_port :: nat
  pub_projectPath :: string
  pub_startTime :: nat

record child =
  c_pid :: pid
  c_command :: string
  c_args :: "string list"
  c_cwd :: string
  c_env :: "string \<rightharpoonup> envval"
  c_port :: nat
  c_phase :: phase
  c_signals :: "signal list"
  c_timeout :: "nat option"
  c_exitL :: bool
  c_errorL :: bool
  c_stdoutL :: bool
  c_poller :: bool
  c_ready :: outcome
  c_stopWaits :: "(pid \<times> bool) list"

text \<open>
  \<open>processes\<close> is the \<^verbatim>\<open>Map\<close> of the manager (insertion order kept), \<open>children\<close> the
  child objects ever spawned (a handle is an index into it), \<open>stopTimers\<close> the pending
  escalation timers of \<^verbatim>\<open>stop\<close>. \<open>crashed\<close>: an \<^verbatim>\<open>'error'\<close> event was emitted on a
  child that has no \<^verbatim>\<open>'error'\<close> listener, which Node turns into an uncaught exception.
  The \<^verbatim>\<open>process\<close> field of a registry entry is the child object itself in the source
  and its handle here; the invariant \<open>wf\<close> below says that the handle names a child.
\<close>

record world =
  processes :: "(pid \<times> processInfo) list"
  children :: "child list"
  stopTimers :: "(pid \<times> handle \<times> nat) list"
  crashed :: bool

definition emptyWorld :: world where
  "emptyWorld = \<lparr>processes = [], children = [], stopTimers = [], crashed = False\<rparr>"

definition upd_child :: "handle \<Rightarrow> (child \<Rightarrow> child) \<Rightarrow> world \<Rightarrow> world" where
  "upd_child h f w =
     (if h < length (children w) then w\<lparr>children := (children w)[h := f (children w ! h)]\<rparr> else w)"

definition has :: "world \<Rightarrow> pid \<Rightarrow> bool" where
  "has w p = (map_of (processes w) p \<noteq> None)"

subsection \<open>start: spawning and registering\<close>

text \<open>
  \<^verbatim>\<open>start\<close> up to the point where it awaits the readiness promise. What \<^verbatim>\<open>spawn\<close> gives
  (a pid, or none when the spawn fails) and the clock reading are the host's choice and are
  arguments. The result is the handle of the spawned child, whose \<open>c_ready\<close> is the
  promise awaited; an \<open>Inl\<close> is an error thrown before anything was spawned.

  The executor of the promise runs at once. Its first statement calls \<^verbatim>\<open>setTimeout\<close> with
  \<^verbatim>\<open>config.app.startupTimeout\<close>: when \<^verbatim>\<open>config.app\<close> is \<^verbatim>\<open>undefined\<close> this throws inside
  the executor, so the promise is rejected with the \<^verbatim>\<open>TypeError\<close> and no timer, no
  listener of the race and no \<^verbatim>\<open>waitForPort\<close> exists (\<open>unarmed\<close>); the child is spawned and
  registered all the same. Otherwise the timer is armed, \<^verbatim>\<open>onError\<close> and \<^verbatim>\<open>checkReady\<close>
  are attached and \<^verbatim>\<open>waitForPort\<close> starts polling (\<open>armed\<close>).
\<close>

definition spawnedChild ::
  "host \<Rightarrow> string \<Rightarrow> string \<Rightarrow> (string \<rightharpoonup> envval) \<Rightarrow> nat \<Rightarrow> pid \<Rightarrow> child" where
  "spawnedChild hst packageManager absolutePath env port newPid =
     \<lparr>c_pid = newPid,
      c_command = spawnCommand hst packageManager,
      c_args = spawnArgs hst packageManager,
      c_cwd = absolutePath, c_env = env, c_port = port,
      c_phase = (case newPid of Pid n \<Rightarrow> Running | Undefined \<Rightarrow> SpawnFailed),
      c_signals = [],
      c_timeout = None, c_exitL = False, c_errorL = False,
      c_stdoutL = False, c_poller = False, c_ready = Pending,
      c_stopWaits = []\<rparr>"

definition unarmed :: "child \<Rightarrow> child" where
  "unarmed c = c\<lparr>c_ready := Failed (TypeError ''startupTimeout'')\<rparr>"

definition armed :: "nat \<Rightarrow> child \<Rightarrow> child" where
  "armed deadline c =
     c\<lparr>c_timeout := Some deadline, c_exitL := True, c_errorL := True, c_stdoutL := True,
       c_poller := True\<rparr>"

definition start_launch ::
  "host \<Rightarrow> world \<Rightarrow> string \<Rightarrow> options \<Rightarrow> pid \<Rightarrow> nat \<Rightarrow> (err + handle) \<times> world" where
  "start_launch hst w projectPath opts newPid now =
     (let absolutePath = resolveAbsolutePath hst projectPath
      in case validateProjectPath hst absolutePath of
           Inl e \<Rightarrow> (Inl e, w)
         | Inr ok \<Rightarrow>
            (case resolvePort hst opts of
               Inl e \<Rightarrow> (Inl e, w)
             | Inr port \<Rightarrow>
                (let packageManager = detectPackageManager hst absolutePath;
                     env = composeEnv hst port opts;
                     chld = spawnedChild hst packageManager absolutePath env port newPid;
                     h = length (children w);
                     processInfo = \<lparr>pi_id = newPid, pi_port = port,
                                    pi_projectPath = absolutePath, pi_startTime = now,
                                    pi_process = h\<rparr>;
                     raced = (case configApp hst of
                                None \<Rightarrow> unarmed chld
                              | Some app \<Rightarrow> armed (startupTimeout app) chld)
                 in (Inr h, w\<lparr>children := children w @ [raced],
                               processes := AList.update newPid processInfo (processes w)\<rparr>))))"

subsection \<open>start: the readiness race\<close>

definition digitChar :: "nat \<Rightarrow> char" where
  "digitChar d = ''0123456789'' ! d"

function showNat :: "nat \<Rightarrow> string" where
  "showNat n = (if n < 10 then [digitChar n] else showNat (n div 10) @ [digitChar (n mod 10)])"
  by pat_completeness auto
termination
  by (relation "measure (\<lambda>n. n)") auto

text \<open>\<^verbatim>\<open>String.prototype.includes\<close>.\<close>

fun str_includes :: "string \<Rightarrow> string \<Rightarrow> bool" where
  "str_includes [] pat = (pat = [])"
| "str_includes (c # cs) pat = (take (length pat) (c # cs) = pat \<or> str_includes cs pat)"

definition isReadyOutput :: "nat \<Rightarrow> string \<Rightarrow> bool" where
  "isReadyOutput port output =
     (str_includes output ''ready - started server on'' \<or>
      str_includes output ''Compiled successfully'' \<or>
      str_includes output (''Local:   http://localhost:'' @ showNat port))"

definition cleanup :: "child \<Rightarrow> child" where
  "cleanup c = c\<lparr>c_timeout := None, c_exitL := False, c_errorL := False, c_stdoutL := False\<rparr>"

text \<open>
  \<^verbatim>\<open>resolve\<close> and \<^verbatim>\<open>reject\<close> of a promise: the first call settles it, a later call of
  either does nothing.
\<close>

definition resolve :: "child \<Rightarrow> child" where
  "resolve c = (if c_ready c = Pending then c\<lparr>c_ready := Ready\<rparr> else c)"

definition reject :: "err \<Rightarrow> child \<Rightarrow> child" where
  "reject e c = (if c_ready c = Pending then c\<lparr>c_ready := Failed e\<rparr> else c)"

definition onListening :: "child \<Rightarrow> child" where
  "onListening c = resolve (cleanup c)"

definition onError :: "err \<Rightarrow> child \<Rightarrow> child" where
  "onError e c = reject e (cleanup c)"

definition checkReady :: "string \<Rightarrow> child \<Rightarrow> child" where
  "checkReady output c = (if isReadyOutput (c_port c) output then onListening c else c)"

definition onStartupTimeout :: "nat \<Rightarrow> child \<Rightarrow> child" where
  "onStartupTimeout deadline c = reject (StartupTimedOut deadline) (cleanup c)"

definition onPortTimeout :: "child \<Rightarrow> child" where
  "onPortTimeout c = reject (PortWaitTimedOut (c_port c)) (cleanup c)"

text \<open>
  \<^verbatim>\<open>child.kill(signal)\<close> of Node sends the signal to a process that is running; on a
  child that has exited, or that never spawned, it sends nothing and returns \<^verbatim>\<open>false\<close>.
\<close>

definition kill :: "signal \<Rightarrow> child \<Rightarrow> child" where
  "kill sig c = (if c_phase c = Running then c\<lparr>c_signals := c_signals c @ [sig]\<rparr> else c)"

text \<open>
  What \<^verbatim>\<open>start\<close> returns or throws once the promise it awaits is settled: the catch
  block rethrows the rejection as it is.
\<close>

definition start_result :: "world \<Rightarrow> processInfo \<Rightarrow> (err + processInfo) option" where
  "start_result w processInfo =
     (case c_ready (children w ! pi_process processInfo) of
        Pending \<Rightarrow> None
      | Ready \<Rightarrow> Some (Inr processInfo)
      | Failed e \<Rightarrow> Some (Inl e))"

subsection \<open>The events Node delivers\<close>

text \<open>
  One event is one callback run of the event loop: a chunk on a child's stdout or stderr,
  the child's \<^verbatim>\<open>'exit'\<close>, \<^verbatim>\<open>'error'\<close> and \<^verbatim>\<open>'close'\<close>, the startup timer, the three
  events the emitter of \<^verbatim>\<open>waitForPort\<close> can emit, and an escalation timer of \<^verbatim>\<open>stop\<close>.
  Node emits \<^verbatim>\<open>'exit'\<close> once, on a running child, and \<^verbatim>\<open>'close'\<close> once, after
  \<^verbatim>\<open>'exit'\<close> or, for a child that never spawned, after its \<^verbatim>\<open>'error'\<close>. It emits
  \<^verbatim>\<open>'error'\<close> for a spawn that failed and for a running child (a signal or a message
  that could not be sent). A timer fires only while armed; \<^verbatim>\<open>checkPort\<close> emits once and
  stops. An event that cannot happen in the current state leaves the state as it is.
\<close>

datatype event =
    StdoutData handle string
  | StderrData handle string
  | ChildExit handle "int option"
  | ChildError handle
  | ChildClose handle
  | StartupTimer handle
  | PortListening handle
  | PortTimeout handle
  | PortError handle
  | EscalationTimer pid handle

definition escalationDelay :: nat where
  "escalationDelay = 5000"

text \<open>
  The \<^verbatim>\<open>'close'\<close> listeners of a child in the order they were attached: the one of
  \<^verbatim>\<open>start\<close> (line 118), then one for each \<^verbatim>\<open>stop\<close> call (line 201), which deletes the
  id it was called with and resolves its promise.
\<close>

definition closeListeners :: "handle \<Rightarrow> world \<Rightarrow> world" where
  "closeListeners h w =
     (let c = children w ! h;
          afterStart = AList.delete (c_pid c) (processes w);
          afterStops = foldl (\<lambda>reg (p, resolved). AList.delete p reg) afterStart (c_stopWaits c)
      in w\<lparr>processes := afterStops,
            children := (children w)
              [h := c\<lparr>c_phase := Closed,
                      c_stopWaits := map (\<lambda>(p, resolved). (p, True)) (c_stopWaits c)\<rparr>]\<rparr>)"

definition errorPossible :: "phase \<Rightarrow> bool" where
  "errorPossible ph = (ph = SpawnFailed \<or> ph = Running)"

definition afterError :: "phase \<Rightarrow> phase" where
  "afterError ph = (if ph = SpawnFailed then Errored else ph)"

definition closePossible :: "phase \<Rightarrow> bool" where
  "closePossible ph = (ph = Exited \<or> ph = Errored)"

fun deliver :: "world \<Rightarrow> event \<Rightarrow> world" where
  "deliver w (StdoutData h output) =
     upd_child h (\<lambda>c. if c_stdoutL c then checkReady output c else c) w"
| "deliver w (StderrData h output) = w"
| "deliver w (ChildExit h code) =
     upd_child h (\<lambda>c. if c_phase c = Running
                       then (if c_exitL c then onError (ExitCode code) (c\<lparr>c_phase := Exited\<rparr>)
                             else c\<lparr>c_phase := Exited\<rparr>)
                       else c) w"
| "deliver w (ChildError h) =
     (if h < length (children w) \<and> errorPossible (c_phase (children w ! h))
      then (if c_errorL (children w ! h)
            then upd_child h (\<lambda>c. onError ChildErrored (c\<lparr>c_phase := afterError (c_phase c)\<rparr>)) w
            else w\<lparr>crashed := True\<rparr>)
      else w)"
| "deliver w (ChildClose h) =
     (if h < length (children w) \<and> closePossible (c_phase (children w ! h))
      then closeListeners h w else w)"
| "deliver w (StartupTimer h) =
     upd_child h (\<lambda>c. case c_timeout c of
                         Some deadline \<Rightarrow> onStartupTimeout deadline (c\<lparr>c_timeout := None\<rparr>)
                       | None \<Rightarrow> c) w"
| "deliver w (PortListening h) =
     upd_child h (\<lambda>c. if c_poller c then onListening (c\<lparr>c_poller := False\<rparr>) else c) w"
| "deliver w (PortTimeout h) =
     upd_child h (\<lambda>c. if c_poller c then onPortTimeout (c\<lparr>c_poller := False\<rparr>) else c) w"
| "deliver w (PortError h) =
     upd_child h (\<lambda>c. if c_poller c then onError PortCheckErrored (c\<lparr>c_poller := False\<rparr>) else c) w"
| "deliver w (EscalationTimer p h) =
     (if (p, h, escalationDelay) \<in> set (stopTimers w)
      then (let w1 = w\<lparr>stopTimers := remove1 (p, h, escalationDelay) (stopTimers w)\<rparr>
            in if has w1 p then upd_child h (kill SIGKILL) w1 else w1)
      else w)"

definition step :: "world \<Rightarrow> event \<Rightarrow> world" where
  "step w e = (if crashed w then w else deliver w e)"

definition run :: "world \<Rightarrow> event list \<Rightarrow> world" where
  "run w es = foldl step w es"

subsection \<open>stop, stopAll, getProcessInfo\<close>

text \<open>
  \<^verbatim>\<open>stop\<close> throws when the id is not in the map. Otherwise it returns a promise, named here
  by the child and the position of its \<^verbatim>\<open>'close'\<close> listener among the stop listeners of
  that child; the promise has no \<^verbatim>\<open>reject\<close>.
\<close>

type_synonym stopPromise = "handle \<times> nat"

definition stop :: "world \<Rightarrow> pid \<Rightarrow> (err + stopPromise) \<times> world" where
  "stop w processId =
     (case map_of (processes w) processId of
        None \<Rightarrow> (Inl (NoProcessFound processId), w)
      | Some processInfo \<Rightarrow>
          (let h = pi_process processInfo;
               k = length (c_stopWaits (children w ! h));
               w1 = upd_child h (\<lambda>c. c\<lparr>c_stopWaits := c_stopWaits c @ [(processId, False)]\<rparr>) w;
               w2 = upd_child h (kill SIGTERM) w1;
               w3 = w2\<lparr>stopTimers := stopTimers w2 @ [(processId, h, escalationDelay)]\<rparr>
           in (Inr (h, k), w3)))"

definition stopResolved :: "world \<Rightarrow> stopPromise \<Rightarrow> bool" where
  "stopResolved w pr = snd (c_stopWaits (children w ! fst pr) ! snd pr)"

fun stopAll_loop :: "world \<Rightarrow> pid list \<Rightarrow> (err + stopPromise) list \<times> world" where
  "stopAll_loop w [] = ([], w)"
| "stopAll_loop w (processId # rest) =
     (let (r, w1) = stop w processId;
          (rs, w2) = stopAll_loop w1 rest
      in (r # rs, w2))"

definition stopAll :: "world \<Rightarrow> (err + stopPromise) list \<times> world" where
  "stopAll w = stopAll_loop w (map fst (processes w))"

text \<open>
  \<^verbatim>\<open>await Promise.all(stopPromises)\<close>: rejected as soon as one promise is, fulfilled once
  all are. A \<^verbatim>\<open>stop\<close> that threw is a promise rejected from the start, \<^verbatim>\<open>stop\<close> being
  \<^verbatim>\<open>async\<close>.
\<close>

datatype settled = StillPending | Fulfilled | RejectedWith err

fun promiseAll :: "world \<Rightarrow> (err + stopPromise) list \<Rightarrow> settled" where
  "promiseAll w [] = Fulfilled"
| "promiseAll w (Inl e # rs) = RejectedWith e"
| "promiseAll w (Inr pr # rs) =
     (case promiseAll w rs of
        RejectedWith e \<Rightarrow> RejectedWith e
      | Fulfilled \<Rightarrow> if stopResolved w pr then Fulfilled else StillPending
      | StillPending \<Rightarrow> StillPending)"

definition getProcessInfo :: "world \<Rightarrow> pid \<Rightarrow> err + publicInfo" where
  "getProcessInfo w processId =
     (case map_of (processes w) processId of
        None \<Rightarrow> Inl (NoProcessFound processId)
      | Some processInfo \<Rightarrow>
          Inr \<lparr>pub_id = pi_id processInfo, pub_port = pi_port processInfo,
               pub_projectPath = pi_projectPath processInfo,
               pub_startTime = pi_startTime processInfo\<rparr>)"

definition NotFoundError :: "err \<Rightarrow> bool" where
  "NotFoundError e = (case e of NoProcessFound p \<Rightarrow> True | _ \<Rightarrow> False)"

section \<open>Invariants and sample inputs\<close>

text \<open>
  What holds of a child's readiness race in every state: while the promise is pending the
  timer is armed, every listener is attached, the poller runs and the child has emitted
  neither \<^verbatim>\<open>'exit'\<close> nor \<^verbatim>\<open>'error'\<close>; once it is settled the timer is cleared and the
  three listeners of the child are removed.
\<close>

definition race_inv :: "child \<Rightarrow> bool" where
  "race_inv c =
     (if c_ready c = Pending
      then c_timeout c \<noteq> None \<and> c_exitL c \<and> c_errorL c \<and> c_stdoutL c \<and> c_poller c \<and>
           (c_phase c = Running \<or> c_phase c = SpawnFailed)
      else c_timeout c = None \<and> \<not> c_exitL c \<and> \<not> c_errorL c \<and> \<not> c_stdoutL c)"

text \<open>The child was spawned: it is or was a process.\<close>

definition spawned :: "child \<Rightarrow> bool" where
  "spawned c = (c_phase c = Running \<or> c_phase c = Exited \<or> c_phase c = Closed)"

text \<open>The events the emitter of \<^verbatim>\<open>waitForPort\<close> for child \<open>h\<close> emits.\<close>

definition portSignal :: "handle \<Rightarrow> event \<Rightarrow> bool" where
  "portSignal h e = (e = PortListening h \<or> e = PortTimeout h \<or> e = PortError h)"

text \<open>
  No child of the state that has not emitted \<^verbatim>\<open>'close'\<close> carries the id \<open>p\<close>, as its pid or
  in a \<^verbatim>\<open>'close'\<close> listener of \<^verbatim>\<open>stop\<close>; and the same of every such child but \<open>h\<close>. (The
  operating system may give a new process the pid of one that has exited, and every failed
  spawn has the id \<^verbatim>\<open>undefined\<close>.)
\<close>

definition unshared :: "world \<Rightarrow> pid \<Rightarrow> bool" where
  "unshared w p =
     (\<forall>c \<in> set (children w). c_phase c \<noteq> Closed \<longrightarrow> c_pid c \<noteq> p \<and> p \<notin> fst ` set (c_stopWaits c))"

definition owns :: "world \<Rightarrow> pid \<Rightarrow> handle \<Rightarrow> bool" where
  "owns w p h =
     (\<forall>g < length (children w). g \<noteq> h \<longrightarrow> c_phase (children w ! g) \<noteq> Closed \<longrightarrow>
        c_pid (children w ! g) \<noteq> p \<and> p \<notin> fst ` set (c_stopWaits (children w ! g)))"

text \<open>Every pending escalation timer is the timer of a \<^verbatim>\<open>stop\<close> on a child that exists.\<close>

definition timersBound :: "world \<Rightarrow> bool" where
  "timersBound w = (\<forall>(p, h, d) \<in> set (stopTimers w). h < length (children w))"

text \<open>
  A host for the examples: the project \<^verbatim>\<open>/app\<close> has a manifest, a pnpm and a yarn lock
  file; port 3000 is taken and every other port is free; the configuration is that of the
  module that exports \<^verbatim>\<open>app\<close>, with its defaults. \<open>demoHostConfigJs\<close> is the same host
  with \<^verbatim>\<open>src/config.js\<close> as its configuration, which exports no \<^verbatim>\<open>app\<close>.
\<close>

definition demoHost :: host where
  "demoHost =
     \<lparr>resolveAbsolutePath = (\<lambda>p. p),
      existsSync = (\<lambda>p. p = ''/app'' \<or> p = ''/app/package.json''),
      access = (\<lambda>p. p = ''/app/pnpm-lock.yaml'' \<or> p = ''/app/yarn.lock''),
      readPackageJson = (\<lambda>p. None),
      portBindable = (\<lambda>p. p \<noteq> 3000),
      processEnv = [''HOME'' \<mapsto> Str ''/root'', ''PORT'' \<mapsto> Str ''9''],
      isWindows = False,
      configApp = Some \<lparr>defaultPort = 3000, startupTimeout = 60000\<rparr>\<rparr>"

definition demoHostConfigJs :: host where
  "demoHostConfigJs = demoHost\<lparr>configApp := None\<rparr>"

definition demoOptions :: options where
  "demoOptions = \<lparr>opt_port = Some 5173, opt_env = Some [''PORT'' \<mapsto> Str ''8080'']\<rparr>"

definition demoLaunched :: world where
  "demoLaunched = snd (start_launch demoHost emptyWorld ''/app'' demoOptions (Pid 4242) 0)"

definition demoUnarmed :: world where
  "demoUnarmed = snd (start_launch demoHostConfigJs emptyWorld ''/app'' demoOptions (Pid 4242) 0)"

text \<open>
  The same call when the spawn fails (the package manager is not installed): the child
  object has no pid.
\<close>

definition demoFailedSpawn :: world where
  "demoFailedSpawn = snd (start_launch demoHost emptyWorld ''/app'' demoOptions Undefined 0)"

text \<open>One chunk of output that carries a readiness marker.\<close>

definition demoMarker :: "event list" where
  "demoMarker = [StdoutData 0 ''  Compiled successfully!'']"

text \<open>
  The registry of a state the supervisor can be in: its keys are distinct, and each entry
  names a child object that exists, carries the key as its pid and has not emitted
  \<^verbatim>\<open>'close'\<close> yet.
\<close>

definition wf :: "world \<Rightarrow> bool" where
  "wf w =
     (distinct (map fst (processes w)) \<and>
      (\<forall>(p, info) \<in> set (processes w).
          pi_process info < length (children w) \<and>
          c_pid (children w ! pi_process info) = p \<and>
          c_phase (children w ! pi_process info) \<noteq> Closed))"

text \<open>
  What holds of the promise of a \<^verbatim>\<open>stop\<close> call on id \<open>p\<close> from the call on: its
  listener stays where it was attached, and if the promise is resolved, the child has
  emitted \<^verbatim>\<open>'close'\<close> and the id is out of the registry.
\<close>

definition stop_safe :: "pid \<Rightarrow> stopPromise \<Rightarrow> world \<Rightarrow> bool" where
  "stop_safe p pr w =
     (fst pr < length (children w) \<and>
      snd pr < length (c_stopWaits (children w ! fst pr)) \<and>
      fst (c_stopWaits (children w ! fst pr) ! snd pr) = p \<and>
      (stopResolved w pr \<longrightarrow> c_phase (children w ! fst pr) = Closed \<and> \<not> has w p))"

text \<open>Conversely, the promise is resolved once the child has emitted \<^verbatim>\<open>'close'\<close>.\<close>

definition stop_live :: "stopPromise \<Rightarrow> world \<Rightarrow> bool" where
  "stop_live pr w = (c_phase (children w ! fst pr) = Closed \<longrightarrow> stopResolved w pr)"

text \<open>The event is the \<^verbatim>\<open>'close'\<close> of child \<open>h\<close> and Node can deliver it now.\<close>

definition closing :: "world \<Rightarrow> event \<Rightarrow> handle \<Rightarrow> bool" where
  "closing w e h =
     (e = ChildClose h \<and> h < length (children w) \<and> closePossible (c_phase (children w ! h)))"

text \<open>
  The sample server once its port is occupied, the state right after \<^verbatim>\<open>stop\<close> was called
  on it, and the state after the child has then exited and closed.
\<close>

definition demoReady :: world where
  "demoReady = run demoLaunched [PortListening 0]"

definition demoStopping :: world where
  "demoStopping = snd (stop demoReady (Pid 4242))"

definition demoStopped :: world where
  "demoStopped = run demoStopping [ChildExit 0 None, ChildClose 0]"

text \<open>
  What one \<^verbatim>\<open>stop\<close> call of \<^verbatim>\<open>stopAll\<close> yields for the id \<open>p\<close>: a promise on the child
  the registry names for \<open>p\<close>, with both invariants of a stop promise. An id can be
  stopped when its entry names a child object that has not emitted \<^verbatim>\<open>'close'\<close>.
\<close>

definition stop_ok :: "world \<Rightarrow> world \<Rightarrow> pid \<Rightarrow> err + stopPromise \<Rightarrow> bool" where
  "stop_ok w w' p r =
     (\<exists>info k. map_of (processes w) p = Some info \<and> r = Inr (pi_process info, k) \<and>
        stop_safe p (pi_process info, k) w' \<and> stop_live (pi_process info, k) w')"

definition stoppable :: "world \<Rightarrow> pid \<Rightarrow> bool" where
  "stoppable w p =
     (\<exists>info. map_of (processes w) p = Some info \<and> pi_process info < length (children w) \<and>
        c_phase (children w ! pi_process info) \<noteq> Closed)"

text \<open>
  Two supervised servers: the first has exited but not yet emitted \<^verbatim>\<open>'close'\<close>, the
  second is running; and the state right after \<^verbatim>\<open>stopAll\<close> was called there.
\<close>

definition demoSecondOptions :: options where
  "demoSecondOptions = \<lparr>opt_port = Some 5174, opt_env = None\<rparr>"

definition demoTwo :: world where
  "demoTwo = run (snd (start_launch demoHost demoReady ''/app'' demoSecondOptions (Pid 4243) 1))
               [StdoutData 1 ''ready - started server on 0.0.0.0:5174'', ChildExit 0 (Some 0)]"

definition demoTwoStopping :: world where
  "demoTwoStopping = snd (stopAll demoTwo)"

definition demoBatch :: "(err + stopPromise) list" where
  "demoBatch = [Inr (0, 0), Inr (1, 0)]"

text \<open>
  A pid used twice: the first server has exited but not yet emitted \<^verbatim>\<open>'close'\<close> when a
  second one is started and is given the same pid; and the state right after \<^verbatim>\<open>stop\<close> was
  called on that id.
\<close>

definition demoReused :: world where
  "demoReused = run (snd (start_launch demoHost (run demoReady [ChildExit 0 (Some 0)]) ''/app''
                            demoSecondOptions (Pid 4242) 1))
                  [PortListening 1]"

definition demoReusedStopping :: world where
  "demoReusedStopping = snd (stop demoReused (Pid 4242))"
section \<open>Lemmas about single events and runs\<close>

lemma nth_upd_child:
  "children (upd_child h f w) ! h' =
     (if h' = h \<and> h < length (children w) then f (children w ! h) else children w ! h')"
  by (simp add: upd_child_def)

lemma length_upd_child [simp]: "length (children (upd_child h f w)) = length (children w)"
  by (simp add: upd_child_def)

lemma processes_upd_child [simp]: "processes (upd_child h f w) = processes w"
  by (simp add: upd_child_def)

lemma crashed_upd_child [simp]: "crashed (upd_child h f w) = crashed w"
  by (simp add: upd_child_def)

lemma stopTimers_upd_child [simp]: "stopTimers (upd_child h f w) = stopTimers w"
  by (simp add: upd_child_def)

lemma length_deliver [simp]: "length (children (deliver w e)) = length (children w)"
  by (cases e) (simp_all add: closeListeners_def Let_def)

lemma length_step [simp]: "length (children (step w e)) = length (children w)"
  by (simp add: step_def)

lemma length_run [simp]: "length (children (run w es)) = length (children w)"
  unfolding run_def by (induction es arbitrary: w) simp_all

lemma run_Nil [simp]: "run w [] = w"
  by (simp add: run_def)

lemma run_Cons [simp]: "run w (e # es) = run (step w e) es"
  by (simp add: run_def)

lemma run_append: "run w (es @ es') = run (run w es) es'"
  by (simp add: run_def)

lemma run_snoc: "run w (es @ [e]) = step (run w es) e"
  by (simp add: run_def)

lemmas handler_defs = checkReady_def onListening_def onError_def resolve_def reject_def
  cleanup_def onStartupTimeout_def onPortTimeout_def kill_def

lemmas phase_defs = errorPossible_def afterError_def closePossible_def

lemma kill_fields [simp]:
  "c_stopWaits (kill sig c) = c_stopWaits c"
  "c_phase (kill sig c) = c_phase c"
  "c_pid (kill sig c) = c_pid c"
  "c_ready (kill sig c) = c_ready c"
  by (simp_all add: kill_def)

lemma race_inv_deliver:
  "race_inv (children w ! h) \<Longrightarrow> race_inv (children (deliver w e) ! h)"
  by (cases e)
    (auto simp add: nth_upd_child closeListeners_def Let_def race_inv_def handler_defs
      phase_defs nth_list_update split: if_splits option.splits)

lemma race_inv_step: "race_inv (children w ! h) \<Longrightarrow> race_inv (children (step w e) ! h)"
  by (simp add: step_def race_inv_deliver)

lemma race_inv_run: "race_inv (children w ! h) \<Longrightarrow> race_inv (children (run w es) ! h)"
  by (induction es arbitrary: w) (simp_all add: race_inv_step)

lemma settled_deliver:
  "c_ready (children w ! h) \<noteq> Pending \<Longrightarrow>
   c_ready (children (deliver w e) ! h) = c_ready (children w ! h)"
  by (cases e)
    (auto simp add: nth_upd_child closeListeners_def Let_def handler_defs
      nth_list_update split: if_splits option.splits)

lemma settled_step:
  "c_ready (children w ! h) \<noteq> Pending \<Longrightarrow>
   c_ready (children (step w e) ! h) = c_ready (children w ! h)"
  by (simp add: step_def settled_deliver)

lemma settled_run:
  "c_ready (children w ! h) \<noteq> Pending \<Longrightarrow>
   c_ready (children (run w es) ! h) = c_ready (children w ! h)"
  by (induction es arbitrary: w) (simp_all add: settled_step)

lemma start_launch_shape:
  assumes "start_launch hst w projectPath opts newPid now = (Inr h, w0)"
  shows "h = length (children w)"
    and "length (children w0) = Suc (length (children w))"
    and "crashed w0 = crashed w"
    and "stopTimers w0 = stopTimers w"
    and "\<forall>g < length (children w). children w0 ! g = children w ! g"
  using assms
  by (auto simp add: start_launch_def Let_def nth_append split: sum.splits)

lemma start_launch_child:
  assumes "start_launch hst w projectPath opts newPid now = (Inr h, w0)"
  shows "c_pid (children w0 ! h) = newPid"
    and "c_signals (children w0 ! h) = []"
    and "c_stopWaits (children w0 ! h) = []"
    and "c_phase (children w0 ! h) = (case newPid of Pid n \<Rightarrow> Running | Undefined \<Rightarrow> SpawnFailed)"
    and "c_env (children w0 ! h) = composeEnv hst (c_port (children w0 ! h)) opts"
    and "resolvePort hst opts = Inr (c_port (children w0 ! h))"
  using assms
  by (auto simp add: start_launch_def Let_def spawnedChild_def armed_def unarmed_def
      split: sum.splits option.splits)

lemma start_launch_entry:
  assumes "start_launch hst w projectPath opts newPid now = (Inr h, w0)"
  shows "\<exists>info. map_of (processes w0) newPid = Some info \<and> pi_process info = h \<and> pi_id info = newPid"
  using assms
  by (auto simp add: start_launch_def Let_def update_conv' split: sum.splits)

lemma start_launch_race:
  assumes "start_launch hst w projectPath opts newPid now = (Inr h, w0)"
  shows "race_inv (children w0 ! h)"
  using assms
  by (auto simp add: start_launch_def Let_def spawnedChild_def armed_def unarmed_def
      race_inv_def split: sum.splits option.splits pid.splits)

lemma start_launch_armed:
  assumes "start_launch hst w projectPath opts newPid now = (Inr h, w0)"
    and "configApp hst = Some app"
  shows "c_ready (children w0 ! h) = Pending"
    and "c_timeout (children w0 ! h) = Some (startupTimeout app)"
    and "c_poller (children w0 ! h)"
  using assms
  by (auto simp add: start_launch_def Let_def spawnedChild_def armed_def split: sum.splits)

lemma start_launch_unarmed:
  assumes "start_launch hst w projectPath opts newPid now = (Inr h, w0)"
    and "configApp hst = None"
  shows "c_ready (children w0 ! h) = Failed (TypeError ''startupTimeout'')"
    and "\<not> c_poller (children w0 ! h)"
  using assms
  by (auto simp add: start_launch_def Let_def spawnedChild_def unarmed_def split: sum.splits)

lemma c_pid_deliver [simp]: "c_pid (children (deliver w e) ! h) = c_pid (children w ! h)"
  by (cases e)
    (auto simp add: nth_upd_child closeListeners_def Let_def handler_defs nth_list_update
      split: option.splits)

lemma c_pid_run [simp]: "c_pid (children (run w es) ! h) = c_pid (children w ! h)"
  by (induction es arbitrary: w) (simp_all add: step_def)

lemma phase_no_exit_deliver:
  "\<forall>code. ChildExit h code \<noteq> e \<Longrightarrow> c_phase (children w ! h) = Running \<Longrightarrow>
   c_phase (children (deliver w e) ! h) = Running"
  by (cases e)
    (auto simp add: nth_upd_child closeListeners_def Let_def handler_defs phase_defs
      nth_list_update split: option.splits)

lemma phase_no_exit_run:
  "\<forall>code. ChildExit h code \<notin> set es \<Longrightarrow> c_phase (children w ! h) = Running \<Longrightarrow>
   c_phase (children (run w es) ! h) = Running"
  by (induction es arbitrary: w) (simp_all add: step_def phase_no_exit_deliver)

lemma spawned_deliver: "spawned (children w ! h) \<Longrightarrow> spawned (children (deliver w e) ! h)"
  by (cases e)
    (auto simp add: spawned_def nth_upd_child closeListeners_def Let_def handler_defs phase_defs
      nth_list_update split: option.splits)

lemma spawned_run: "spawned (children w ! h) \<Longrightarrow> spawned (children (run w es) ! h)"
  by (induction es arbitrary: w) (simp_all add: step_def spawned_deliver)

lemma map_of_foldl_delete:
  "map_of reg q = None \<Longrightarrow>
   map_of (foldl (\<lambda>reg (p, r). AList.delete p reg) reg ws) q = None"
  by (induction ws arbitrary: reg) (auto simp add: delete_conv')

lemma close_removes_pid:
  "h < length (children w) \<Longrightarrow> closePossible (c_phase (children w ! h)) \<Longrightarrow> \<not> crashed w \<Longrightarrow>
   map_of (processes (step w (ChildClose h))) (c_pid (children w ! h)) = None"
  by (simp add: step_def closeListeners_def Let_def map_of_foldl_delete delete_conv')

lemma pending_signals:
  assumes inv: "race_inv (children w ! h)" and pend: "c_ready (children w ! h) = Pending"
    and h: "h < length (children w)" and live: "\<not> crashed w"
  shows "c_ready (children (step w (PortListening h)) ! h) = Ready"
    and "isReadyOutput (c_port (children w ! h)) output \<Longrightarrow>
         c_ready (children (step w (StdoutData h output)) ! h) = Ready"
    and "\<not> isReadyOutput (c_port (children w ! h)) output \<Longrightarrow>
         c_ready (children (step w (StdoutData h output)) ! h) = Pending"
    and "spawned (children w ! h) \<Longrightarrow>
         c_ready (children (step w (ChildExit h code)) ! h) = Failed (ExitCode code)"
    and "c_ready (children (step w (ChildError h)) ! h) = Failed ChildErrored"
    and "c_timeout (children w ! h) = Some d \<Longrightarrow>
         c_ready (children (step w (StartupTimer h)) ! h) = Failed (StartupTimedOut d)"
    and "c_ready (children (step w (PortTimeout h)) ! h)
           = Failed (PortWaitTimedOut (c_port (children w ! h)))"
    and "c_ready (children (step w (PortError h)) ! h) = Failed PortCheckErrored"
  using assms
  by (auto simp add: step_def nth_upd_child race_inv_def handler_defs phase_defs spawned_def)

lemma c_port_deliver [simp]: "c_port (children (deliver w e) ! h) = c_port (children w ! h)"
  by (cases e)
    (auto simp add: nth_upd_child closeListeners_def Let_def handler_defs nth_list_update
      split: option.splits)

lemma c_port_run [simp]: "c_port (children (run w es) ! h) = c_port (children w ! h)"
  by (induction es arbitrary: w) (simp_all add: step_def)

lemma timeout_deliver:
  "c_timeout (children (deliver w e) ! h) = c_timeout (children w ! h) \<or>
   c_timeout (children (deliver w e) ! h) = None"
  by (cases e)
    (auto simp add: nth_upd_child closeListeners_def Let_def handler_defs nth_list_update
      split: option.splits)

lemma timeout_run:
  "c_timeout (children (run w es) ! h) = c_timeout (children w ! h) \<or>
   c_timeout (children (run w es) ! h) = None"
proof (induction es arbitrary: w)
  case Nil
  show ?case by simp
next
  case (Cons e es)
  from Cons.IH [of "step w e"] timeout_deliver [of w e h] show ?case
    by (auto simp add: step_def)
qed

lemma poller_deliver:
  "\<not> portSignal h e \<Longrightarrow> c_poller (children (deliver w e) ! h) = c_poller (children w ! h)"
  by (cases e)
    (auto simp add: portSignal_def nth_upd_child closeListeners_def Let_def handler_defs
      nth_list_update split: option.splits)

lemma poller_run:
  "\<forall>e \<in> set es. \<not> portSignal h e \<Longrightarrow>
   c_poller (children (run w es) ! h) = c_poller (children w ! h)"
  by (induction es arbitrary: w) (simp_all add: step_def poller_deliver)

lemma poller_emits:
  "h < length (children w) \<Longrightarrow> \<not> crashed w \<Longrightarrow> portSignal h e \<Longrightarrow>
   \<not> c_poller (children (step w e) ! h)"
  by (auto simp add: portSignal_def step_def nth_upd_child handler_defs split: if_splits)

section \<open>Lemmas about the registry and stop\<close>

lemma has_iff: "has w p \<longleftrightarrow> p \<in> fst ` set (processes w)"
  by (simp add: has_def map_of_eq_None_iff)

lemma keys_foldl_delete:
  "fst ` set (foldl (\<lambda>reg (p, r). AList.delete p reg) reg ws) \<subseteq> fst ` set reg"
proof (induction ws arbitrary: reg)
  case Nil
  show ?case by simp
next
  case (Cons x ws)
  obtain p r where x: "x = (p, r)" by (cases x)
  have "fst ` set (foldl (\<lambda>reg (p, r). AList.delete p reg) (AList.delete p reg) ws)
          \<subseteq> fst ` set (AList.delete p reg)"
    by (rule Cons.IH)
  also have "\<dots> \<subseteq> fst ` set reg"
    by (rule dom_delete_subset)
  finally show ?case by (simp add: x)
qed

lemma set_delete_subset: "set (AList.delete k al) \<subseteq> set al"
  by (induction al) auto

lemma set_foldl_delete:
  "set (foldl (\<lambda>reg (p, r). AList.delete p reg) reg ws) \<subseteq> set reg"
proof (induction ws arbitrary: reg)
  case Nil
  show ?case by simp
next
  case (Cons x ws)
  obtain p r where x: "x = (p, r)" by (cases x)
  have "set (foldl (\<lambda>reg (p, r). AList.delete p reg) (AList.delete p reg) ws)
          \<subseteq> set (AList.delete p reg)"
    by (rule Cons.IH)
  also have "\<dots> \<subseteq> set reg"
    by (rule set_delete_subset)
  finally show ?case by (simp add: x)
qed

lemma distinct_foldl_delete:
  "distinct (map fst reg) \<Longrightarrow>
   distinct (map fst (foldl (\<lambda>reg (p, r). AList.delete p reg) reg ws))"
  by (induction ws arbitrary: reg) (auto simp add: distinct_delete)

lemma map_of_foldl_delete_mem:
  "q \<in> fst ` set ws \<Longrightarrow>
   map_of (foldl (\<lambda>reg (p, r). AList.delete p reg) reg ws) q = None"
proof (induction ws arbitrary: reg)
  case Nil
  then show ?case by simp
next
  case (Cons x ws)
  obtain p r where x: "x = (p, r)" by (cases x)
  show ?case
  proof (cases "q = p")
    case True
    have "map_of (AList.delete p reg) q = None"
      using True by (simp add: delete_conv')
    then show ?thesis
      by (simp add: x map_of_foldl_delete)
  next
    case False
    with Cons.prems x have "q \<in> fst ` set ws" by auto
    then show ?thesis
      by (simp add: x Cons.IH)
  qed
qed

lemma keys_deliver: "fst ` set (processes (deliver w e)) \<subseteq> fst ` set (processes w)"
proof (cases e)
  case (ChildClose h)
  have "fst ` set (foldl (\<lambda>reg (p, r). AList.delete p reg)
            (AList.delete (c_pid (children w ! h)) (processes w)) (c_stopWaits (children w ! h)))
          \<subseteq> fst ` set (AList.delete (c_pid (children w ! h)) (processes w))"
    by (rule keys_foldl_delete)
  also have "\<dots> \<subseteq> fst ` set (processes w)"
    by (rule dom_delete_subset)
  finally show ?thesis
    by (simp add: ChildClose closeListeners_def Let_def)
qed (simp_all add: Let_def)

lemma keys_step: "fst ` set (processes (step w e)) \<subseteq> fst ` set (processes w)"
  by (simp add: step_def keys_deliver)

lemma keys_run: "fst ` set (processes (run w es)) \<subseteq> fst ` set (processes w)"
proof (induction es arbitrary: w)
  case Nil
  show ?case by simp
next
  case (Cons e es)
  have "fst ` set (processes (run (step w e) es)) \<subseteq> fst ` set (processes (step w e))"
    by (rule Cons.IH)
  also have "\<dots> \<subseteq> fst ` set (processes w)"
    by (rule keys_step)
  finally show ?case by simp
qed

lemma has_step: "has (step w e) p \<Longrightarrow> has w p"
  using keys_step [of w e] by (auto simp add: has_iff)

lemma has_run: "has (run w es) p \<Longrightarrow> has w p"
  using keys_run [of w es] by (auto simp add: has_iff)

lemma stopWaits_deliver:
  "c_stopWaits (children (deliver w e) ! h) =
     (if closing w e h then map (\<lambda>(p, d). (p, True)) (c_stopWaits (children w ! h))
      else c_stopWaits (children w ! h))"
  by (cases e)
    (auto simp add: closing_def nth_upd_child closeListeners_def Let_def handler_defs
      phase_defs nth_list_update split: option.splits)

lemma closed_deliver:
  "c_phase (children (deliver w e) ! h) = Closed \<longleftrightarrow>
     c_phase (children w ! h) = Closed \<or> closing w e h"
  by (cases e)
    (auto simp add: closing_def nth_upd_child closeListeners_def Let_def handler_defs
      phase_defs nth_list_update split: option.splits)

lemma has_closing:
  assumes "closing w e h" and "k < length (c_stopWaits (children w ! h))"
  shows "\<not> has (deliver w e) (fst (c_stopWaits (children w ! h) ! k))"
proof -
  have "fst (c_stopWaits (children w ! h) ! k) \<in> fst ` set (c_stopWaits (children w ! h))"
    using assms(2) by simp
  then show ?thesis
    using assms(1)
    by (simp add: closing_def has_def closeListeners_def Let_def map_of_foldl_delete_mem)
qed

lemma has_deliver: "has (deliver w e) p \<Longrightarrow> has w p"
  using keys_deliver [of w e] by (auto simp add: has_iff)

lemma stop_safe_deliver:
  assumes "stop_safe p pr w"
  shows "stop_safe p pr (deliver w e)"
proof (cases "closing w e (fst pr)")
  case True
  then show ?thesis
    using assms has_closing [OF True, of "snd pr"]
    by (auto simp add: stop_safe_def stopResolved_def stopWaits_deliver closed_deliver
        split_beta)
next
  case False
  then show ?thesis
    using assms has_deliver [of w e p]
    by (auto simp add: stop_safe_def stopResolved_def stopWaits_deliver closed_deliver)
qed

lemma stop_safe_step: "stop_safe p pr w \<Longrightarrow> stop_safe p pr (step w e)"
  by (simp add: step_def stop_safe_deliver)

lemma stop_safe_run: "stop_safe p pr w \<Longrightarrow> stop_safe p pr (run w es)"
  by (induction es arbitrary: w) (simp_all add: stop_safe_step)

lemma stop_live_deliver:
  assumes "stop_live pr w" and "snd pr < length (c_stopWaits (children w ! fst pr))"
  shows "stop_live pr (deliver w e)"
  using assms
  by (auto simp add: stop_live_def stopResolved_def stopWaits_deliver closed_deliver split_beta)

lemma length_stopWaits_deliver [simp]:
  "length (c_stopWaits (children (deliver w e) ! h)) = length (c_stopWaits (children w ! h))"
  by (simp add: stopWaits_deliver)

lemma stop_live_run:
  "stop_live pr w \<Longrightarrow> snd pr < length (c_stopWaits (children w ! fst pr)) \<Longrightarrow>
   stop_live pr (run w es)"
  by (induction es arbitrary: w) (simp_all add: step_def stop_live_deliver)

lemma stop_untracked: "map_of (processes w) p = None \<Longrightarrow> stop w p = (Inl (NoProcessFound p), w)"
  by (simp add: stop_def)

lemma stop_tracked:
  assumes "map_of (processes w) p = Some info" and "pi_process info < length (children w)"
  shows "stop w p =
     (Inr (pi_process info, length (c_stopWaits (children w ! pi_process info))),
      w\<lparr>children := (children w)
    [pi_process info := kill SIGTERM ((children w ! pi_process info)
              \<lparr>c_stopWaits := c_stopWaits (children w ! pi_process info) @ [(p, False)]\<rparr>)],
        stopTimers := stopTimers w @ [(p, pi_process info, escalationDelay)]\<rparr>)"
  using assms by (simp add: stop_def Let_def upd_child_def)

lemma processes_stop [simp]: "processes (snd (stop w q)) = processes w"
  by (simp add: stop_def Let_def split: option.splits)

lemma length_children_stop [simp]: "length (children (snd (stop w q))) = length (children w)"
  by (simp add: stop_def Let_def split: option.splits)

lemma phase_stop [simp]: "c_phase (children (snd (stop w q)) ! h) = c_phase (children w ! h)"
  by (simp add: stop_def Let_def nth_upd_child kill_def split: option.splits)

lemma pid_stop [simp]: "c_pid (children (snd (stop w q)) ! h) = c_pid (children w ! h)"
  by (simp add: stop_def Let_def nth_upd_child kill_def split: option.splits)

lemma stopWaits_stop:
  "\<exists>xs. c_stopWaits (children (snd (stop w q)) ! h) = c_stopWaits (children w ! h) @ xs"
  by (simp add: stop_def Let_def nth_upd_child kill_def split: option.splits)

lemma has_stop [simp]: "has (snd (stop w q)) p = has w p"
  by (simp add: has_def)

lemma stop_safe_stop:
  assumes "stop_safe p pr w"
  shows "stop_safe p pr (snd (stop w q))"
proof -
  obtain xs where xs: "c_stopWaits (children (snd (stop w q)) ! fst pr)
      = c_stopWaits (children w ! fst pr) @ xs"
    using stopWaits_stop by blast
  show ?thesis
    using assms by (simp add: stop_safe_def stopResolved_def xs nth_append)
qed

lemma stop_live_stop:
  assumes "stop_live pr w" and "snd pr < length (c_stopWaits (children w ! fst pr))"
  shows "stop_live pr (snd (stop w q))
         \<and> snd pr < length (c_stopWaits (children (snd (stop w q)) ! fst pr))"
proof -
  obtain xs where xs: "c_stopWaits (children (snd (stop w q)) ! fst pr)
      = c_stopWaits (children w ! fst pr) @ xs"
    using stopWaits_stop by blast
  show ?thesis
    using assms by (simp add: stop_live_def stopResolved_def xs nth_append)
qed

lemma stop_establishes:
  assumes "map_of (processes w) p = Some info" and "pi_process info < length (children w)"
  shows "\<exists>k. fst (stop w p) = Inr (pi_process info, k) \<and>
             stop_safe p (pi_process info, k) (snd (stop w p)) \<and>
             \<not> stopResolved (snd (stop w p)) (pi_process info, k) \<and>
             (c_phase (children w ! pi_process info) \<noteq> Closed \<longrightarrow>
                stop_live (pi_process info, k) (snd (stop w p)))"
  using assms
  by (simp add: stop_tracked stop_safe_def stop_live_def stopResolved_def)

lemma exited_in_run:
  assumes "c_phase (children w ! h) = Running" and "c_phase (children (run w es) ! h) \<noteq> Running"
  shows "\<exists>code. ChildExit h code \<in> set es"
  using assms phase_no_exit_run [of h es w] by blast

lemma timer_stays_deliver:
  assumes "e \<noteq> EscalationTimer p h" and "(p, h, d) \<in> set (stopTimers w)"
  shows "(p, h, d) \<in> set (stopTimers (deliver w e))"
proof (cases e)
  case (EscalationTimer q g)
  with assms(1) have "(p, h, d) \<noteq> (q, g, escalationDelay)" by auto
  from in_set_remove1 [OF this, of "stopTimers w"] assms(2)
  have "(p, h, d) \<in> set (remove1 (q, g, escalationDelay) (stopTimers w))"
    by blast
  then show ?thesis
    using assms(2) by (simp add: EscalationTimer Let_def)
qed (use assms(2) in \<open>simp_all add: closeListeners_def Let_def\<close>)

lemma timer_stays_run:
  "EscalationTimer p h \<notin> set es \<Longrightarrow> (p, h, d) \<in> set (stopTimers w) \<Longrightarrow>
   (p, h, d) \<in> set (stopTimers (run w es))"
proof (induction es arbitrary: w)
  case Nil
  then show ?case by simp
next
  case (Cons e es)
  from Cons.prems have "e \<noteq> EscalationTimer p h" by auto
  then have "(p, h, d) \<in> set (stopTimers (step w e))"
    using Cons.prems(2) by (simp add: step_def timer_stays_deliver)
  with Cons show ?case by simp
qed

lemma only_timer_kills:
  "\<forall>q g. e \<noteq> EscalationTimer q g \<Longrightarrow>
   c_signals (children (step w e) ! h) = c_signals (children w ! h)"
  by (cases e)
    (auto simp add: step_def nth_upd_child closeListeners_def Let_def handler_defs
      nth_list_update split: option.splits)

lemma timer_fires:
  assumes "(p, h, escalationDelay) \<in> set (stopTimers w)" and "\<not> crashed w"
    and "h < length (children w)"
  shows "c_signals (children (step w (EscalationTimer p h)) ! h)
           = c_signals (children w ! h)
               @ (if has w p \<and> c_phase (children w ! h) = Running then [SIGKILL] else [])"
    and "stopTimers (step w (EscalationTimer p h)) = remove1 (p, h, escalationDelay) (stopTimers w)"
  using assms by (simp_all add: step_def Let_def has_def nth_upd_child kill_def)

section \<open>Lemmas about stopAll\<close>

lemma stopAll_loop_Cons:
  "fst (stopAll_loop w (p # ps)) = fst (stop w p) # fst (stopAll_loop (snd (stop w p)) ps)"
  "snd (stopAll_loop w (p # ps)) = snd (stopAll_loop (snd (stop w p)) ps)"
  by (simp_all add: split_beta)

lemma processes_stopAll_loop [simp]: "processes (snd (stopAll_loop w ps)) = processes w"
  by (induction ps arbitrary: w) (simp_all add: split_beta)

lemma stop_safe_loop: "stop_safe p pr w \<Longrightarrow> stop_safe p pr (snd (stopAll_loop w ps))"
  by (induction ps arbitrary: w) (simp_all add: split_beta stop_safe_stop)

lemma stop_live_loop:
  "stop_live pr w \<Longrightarrow> snd pr < length (c_stopWaits (children w ! fst pr)) \<Longrightarrow>
   stop_live pr (snd (stopAll_loop w ps))"
proof (induction ps arbitrary: w)
  case Nil
  then show ?case by simp
next
  case (Cons q ps)
  from stop_live_stop [OF Cons.prems] show ?case
    by (simp add: split_beta Cons.IH)
qed

lemma stoppable_stop: "stoppable w p \<Longrightarrow> stoppable (snd (stop w q)) p"
  by (simp add: stoppable_def)

lemma stop_ok_loop:
  assumes "\<forall>p \<in> set ps. stoppable w p"
  shows "list_all2 (stop_ok w (snd (stopAll_loop w ps))) ps (fst (stopAll_loop w ps))"
  using assms
proof (induction ps arbitrary: w)
  case Nil
  show ?case by simp
next
  case (Cons p ps)
  let ?w1 = "snd (stop w p)"
  let ?w2 = "snd (stopAll_loop ?w1 ps)"
  from Cons.prems obtain info where info: "map_of (processes w) p = Some info"
    and h: "pi_process info < length (children w)"
    and open_: "c_phase (children w ! pi_process info) \<noteq> Closed"
    by (auto simp add: stoppable_def)
  from stop_establishes [OF info h] open_ obtain k
    where r: "fst (stop w p) = Inr (pi_process info, k)"
      and safe: "stop_safe p (pi_process info, k) ?w1"
      and live: "stop_live (pi_process info, k) ?w1"
    by blast
  have k: "snd (pi_process info, k) < length (c_stopWaits (children ?w1 ! fst (pi_process info, k)))"
    using safe by (simp add: stop_safe_def)
  have head: "stop_ok w ?w2 p (fst (stop w p))"
    using info r stop_safe_loop [OF safe] stop_live_loop [OF live k]
    by (auto simp add: stop_ok_def)
  have "\<forall>q \<in> set ps. stoppable ?w1 q"
    using Cons.prems by (simp add: stoppable_stop)
  then have "list_all2 (stop_ok ?w1 ?w2) ps (fst (stopAll_loop ?w1 ps))"
    by (rule Cons.IH)
  moreover have "stop_ok ?w1 = stop_ok w"
    by (intro ext) (simp add: stop_ok_def)
  ultimately have tail: "list_all2 (stop_ok w ?w2) ps (fst (stopAll_loop ?w1 ps))"
    by simp
  show ?case
    unfolding stopAll_loop_Cons using head tail by simp
qed

lemma stop_ok_run:
  assumes "stop_ok w w' p r"
  shows "stop_ok w (run w' es) p r"
proof -
  from assms obtain info k where info: "map_of (processes w) p = Some info"
    and r: "r = Inr (pi_process info, k)"
    and safe: "stop_safe p (pi_process info, k) w'"
    and live: "stop_live (pi_process info, k) w'"
    by (auto simp add: stop_ok_def)
  have k: "snd (pi_process info, k) < length (c_stopWaits (children w' ! fst (pi_process info, k)))"
    using safe by (simp add: stop_safe_def)
  show ?thesis
    using info r stop_safe_run [OF safe, of es] stop_live_run [OF live k, of es]
    by (auto simp add: stop_ok_def)
qed

lemma promiseAll_Fulfilled:
  "promiseAll w rs = Fulfilled \<longleftrightarrow> (\<forall>r \<in> set rs. \<exists>pr. r = Inr pr \<and> stopResolved w pr)"
proof (induction w rs rule: promiseAll.induct)
  case (1 w)
  show ?case by simp
next
  case (2 w e rs)
  show ?case by simp
next
  case (3 w pr rs)
  show ?case
  proof (cases "promiseAll w rs")
    case StillPending
    with 3 show ?thesis by (cases pr) auto
  next
    case Fulfilled
    with 3 show ?thesis by (cases pr) auto
  next
    case (RejectedWith e)
    with 3 show ?thesis by (cases pr) auto
  qed
qed

lemma promiseAll_RejectedWith: "promiseAll w rs = RejectedWith e \<Longrightarrow> Inl e \<in> set rs"
  by (induction w rs rule: promiseAll.induct) (auto split: settled.splits if_splits)

lemma list_all2_right_elem: "list_all2 P xs ys \<Longrightarrow> y \<in> set ys \<Longrightarrow> \<exists>x \<in> set xs. P x y"
  by (induction rule: list_all2_induct) auto

lemma list_all2_left_elem: "list_all2 P xs ys \<Longrightarrow> x \<in> set xs \<Longrightarrow> \<exists>y \<in> set ys. P x y"
  by (induction rule: list_all2_induct) auto

lemma wf_stoppable: "wf w \<Longrightarrow> (p, info) \<in> set (processes w) \<Longrightarrow>
  map_of (processes w) p = Some info \<and> stoppable w p"
  by (auto simp add: wf_def stoppable_def)

section \<open>The port scan of portChecker.js returns the lowest free port\<close>

lemma findAvailablePort_loop_Inr:
  "findAvailablePort_loop hst s e port = Inr p \<longleftrightarrow>
     port \<le> p \<and> p \<le> e \<and> portBindable hst p \<and> (\<forall>q. port \<le> q \<and> q < p \<longrightarrow> \<not> portBindable hst q)"
proof (induction hst s e port rule: findAvailablePort_loop.induct)
  case (1 hst startPort endPort port)
  note unfold = findAvailablePort_loop.simps [of hst startPort endPort port]
  show ?case
  proof (cases "port \<le> endPort")
    case False
    then have "findAvailablePort_loop hst startPort endPort port
        = Inl (NoAvailablePorts startPort endPort)"
      by (simp only: unfold if_False)
    with False show ?thesis by auto
  next
    case True
    show ?thesis
    proof (cases "portBindable hst port")
      case free: True
      have "findAvailablePort_loop hst startPort endPort port = Inr port"
        using True free by (simp only: unfold isPortAvailable_def if_True)
      moreover have "p = port"
        if "port \<le> p" "\<forall>q. port \<le> q \<and> q < p \<longrightarrow> \<not> portBindable hst q"
      proof (rule ccontr)
        assume "p \<noteq> port"
        with that(1) have "port < p" by simp
        with that(2) free show False by blast
      qed
      ultimately show ?thesis
        using True free by auto
    next
      case taken: False
      have "findAvailablePort_loop hst startPort endPort port
          = findAvailablePort_loop hst startPort endPort (Suc port)"
        using True taken by (simp only: unfold isPortAvailable_def if_True if_False)
      moreover have "findAvailablePort_loop hst startPort endPort (Suc port) = Inr p \<longleftrightarrow>
          Suc port \<le> p \<and> p \<le> endPort \<and> portBindable hst p \<and>
          (\<forall>q. Suc port \<le> q \<and> q < p \<longrightarrow> \<not> portBindable hst q)"
        using True taken by (intro "1.IH") (simp_all add: isPortAvailable_def)
      moreover have "(port \<le> p \<and> (\<forall>q. port \<le> q \<and> q < p \<longrightarrow> \<not> portBindable hst q)) \<longleftrightarrow>
            (Suc port \<le> p \<and> (\<forall>q. Suc port \<le> q \<and> q < p \<longrightarrow> \<not> portBindable hst q))"
        if free: "portBindable hst p"
      proof
        assume a: "port \<le> p \<and> (\<forall>q. port \<le> q \<and> q < p \<longrightarrow> \<not> portBindable hst q)"
        have "port \<noteq> p" using taken free by auto
        with a show "Suc port \<le> p \<and> (\<forall>q. Suc port \<le> q \<and> q < p \<longrightarrow> \<not> portBindable hst q)"
          by auto
      next
        assume b: "Suc port \<le> p \<and> (\<forall>q. Suc port \<le> q \<and> q < p \<longrightarrow> \<not> portBindable hst q)"
        have "\<not> portBindable hst q" if "port \<le> q" "q < p" for q
        proof (cases "q = port")
          case True
          with taken show ?thesis by simp
        next
          case False
          with that b show ?thesis by auto
        qed
        with b show "port \<le> p \<and> (\<forall>q. port \<le> q \<and> q < p \<longrightarrow> \<not> portBindable hst q)"
          by auto
      qed
      ultimately show ?thesis
        by auto
    qed
  qed
qed

lemma findAvailablePort_lowest:
  "findAvailablePort hst s e = Inr p \<longleftrightarrow>
     s \<le> p \<and> p \<le> e \<and> portBindable hst p \<and> (\<forall>q. s \<le> q \<and> q < p \<longrightarrow> \<not> portBindable hst q)"
  by (simp only: findAvailablePort_def findAvailablePort_loop_Inr)

section \<open>The registry invariant holds in every state the supervisor reaches\<close>

lemma wf_emptyWorld: "wf emptyWorld"
  by (simp add: wf_def emptyWorld_def)

lemma set_update_subset: "set (AList.update k v al) \<subseteq> insert (k, v) (set al)"
  by (induction al) auto

lemma wf_start_launch:
  assumes "wf w"
  shows "wf (snd (start_launch hst w projectPath opts newPid now))"
proof (cases "fst (start_launch hst w projectPath opts newPid now)")
  case (Inl e)
  then have "snd (start_launch hst w projectPath opts newPid now) = w"
    by (auto simp add: start_launch_def Let_def split: sum.splits)
  with assms show ?thesis by simp
next
  case (Inr h)
  let ?w0 = "snd (start_launch hst w projectPath opts newPid now)"
  have launch: "start_launch hst w projectPath opts newPid now = (Inr h, ?w0)"
    using Inr by (simp add: prod_eq_iff)
  obtain info where reg: "processes ?w0 = AList.update newPid info (processes w)"
    and info: "pi_process info = length (children w)"
    and kids: "\<exists>c. children ?w0 = children w @ [c] \<and> c_pid c = newPid \<and> c_phase c \<noteq> Closed"
    using launch
    by (auto simp add: start_launch_def Let_def spawnedChild_def armed_def unarmed_def
        split: sum.splits option.splits pid.splits)
  from kids obtain c where c: "children ?w0 = children w @ [c]" "c_pid c = newPid" "c_phase c \<noteq> Closed"
    by blast
  have "distinct (map fst (processes ?w0))"
    using assms by (simp add: reg wf_def distinct_update)
  moreover have "pi_process i < length (children ?w0) \<and>
      c_pid (children ?w0 ! pi_process i) = p \<and> c_phase (children ?w0 ! pi_process i) \<noteq> Closed"
    if "(p, i) \<in> set (processes ?w0)" for p i
  proof -
    from that set_update_subset [of newPid info "processes w"]
    consider "(p, i) = (newPid, info)" | "(p, i) \<in> set (processes w)"
      by (auto simp add: reg)
    then show ?thesis
    proof cases
      case 1
      then show ?thesis by (simp add: c info)
    next
      case 2
      with assms have "pi_process i < length (children w)"
        and "c_pid (children w ! pi_process i) = p"
        and "c_phase (children w ! pi_process i) \<noteq> Closed"
        by (auto simp add: wf_def)
      then show ?thesis by (simp add: c nth_append)
    qed
  qed
  ultimately show ?thesis
    by (auto simp add: wf_def)
qed

lemma wf_stop: "wf w \<Longrightarrow> wf (snd (stop w q))"
  by (simp add: wf_def)

lemma set_processes_deliver: "set (processes (deliver w e)) \<subseteq> set (processes w)"
proof (cases e)
  case (ChildClose h)
  have "set (foldl (\<lambda>reg (p, r). AList.delete p reg)
            (AList.delete (c_pid (children w ! h)) (processes w)) (c_stopWaits (children w ! h)))
          \<subseteq> set (AList.delete (c_pid (children w ! h)) (processes w))"
    by (rule set_foldl_delete)
  also have "\<dots> \<subseteq> set (processes w)"
    by (rule set_delete_subset)
  finally show ?thesis
    by (simp add: ChildClose closeListeners_def Let_def)
qed (simp_all add: Let_def)

lemma distinct_processes_deliver:
  "distinct (map fst (processes w)) \<Longrightarrow> distinct (map fst (processes (deliver w e)))"
  by (cases e) (simp_all add: closeListeners_def Let_def distinct_foldl_delete distinct_delete)

lemma closing_removes_pid:
  assumes "closing w e h"
  shows "c_pid (children w ! h) \<notin> fst ` set (processes (deliver w e))"
proof -
  have "map_of (processes (deliver w e)) (c_pid (children w ! h)) = None"
    using assms
    by (simp add: closing_def closeListeners_def Let_def map_of_foldl_delete delete_conv')
  then show ?thesis
    by (simp add: map_of_eq_None_iff)
qed

lemma wf_deliver:
  assumes "wf w"
  shows "wf (deliver w e)"
proof -
  have "distinct (map fst (processes (deliver w e)))"
    using assms by (simp add: wf_def distinct_processes_deliver)
  moreover have "pi_process i < length (children (deliver w e)) \<and>
      c_pid (children (deliver w e) ! pi_process i) = p \<and>
      c_phase (children (deliver w e) ! pi_process i) \<noteq> Closed"
    if mem: "(p, i) \<in> set (processes (deliver w e))" for p i
  proof -
    from mem set_processes_deliver have "(p, i) \<in> set (processes w)"
      by blast
    with assms have old: "pi_process i < length (children w)"
      "c_pid (children w ! pi_process i) = p" "c_phase (children w ! pi_process i) \<noteq> Closed"
      by (auto simp add: wf_def)
    have "\<not> closing w e (pi_process i)"
    proof
      assume "closing w e (pi_process i)"
      from closing_removes_pid [OF this] old(2) mem show False
        by force
    qed
    with old show ?thesis
      by (simp add: closed_deliver)
  qed
  ultimately show ?thesis
    by (auto simp add: wf_def)
qed

lemma wf_step: "wf w \<Longrightarrow> wf (step w e)"
  by (simp add: step_def wf_deliver)

lemma wf_run: "wf w \<Longrightarrow> wf (run w es)"
  by (induction es arbitrary: w) (simp_all add: wf_step)

section \<open>An entry stays in the registry while its child is open\<close>

lemma map_of_foldl_delete_other:
  "q \<notin> fst ` set ws \<Longrightarrow>
   map_of (foldl (\<lambda>reg (p, r). AList.delete p reg) reg ws) q = map_of reg q"
proof (induction ws arbitrary: reg)
  case Nil
  show ?case by simp
next
  case (Cons x ws)
  obtain p r where x: "x = (p, r)" by (cases x)
  from Cons.prems x have "q \<noteq> p" and rest: "q \<notin> fst ` set ws"
    by auto
  have "map_of (foldl (\<lambda>reg (p, r). AList.delete p reg) (AList.delete p reg) ws) q
      = map_of (AList.delete p reg) q"
    using rest by (rule Cons.IH)
  also have "\<dots> = map_of reg q"
    using \<open>q \<noteq> p\<close> by simp
  finally show ?case
    by (simp add: x)
qed

lemma closed_step:
  "c_phase (children w ! h) = Closed \<Longrightarrow> c_phase (children (step w e) ! h) = Closed"
  by (simp add: step_def closed_deliver)

lemma closed_run:
  "c_phase (children w ! h) = Closed \<Longrightarrow> c_phase (children (run w es) ! h) = Closed"
  by (induction es arbitrary: w) (simp_all add: closed_step)

lemma not_closed_run:
  "ChildClose h \<notin> set es \<Longrightarrow> c_phase (children w ! h) \<noteq> Closed \<Longrightarrow>
   c_phase (children (run w es) ! h) \<noteq> Closed"
proof (induction es arbitrary: w)
  case Nil
  then show ?case by simp
next
  case (Cons e es)
  from Cons.prems have "\<not> closing w e h"
    by (auto simp add: closing_def)
  with Cons.prems(2) have "c_phase (children (step w e) ! h) \<noteq> Closed"
    by (simp add: step_def closed_deliver)
  with Cons show ?case by simp
qed

lemma keys_stopWaits_deliver:
  "fst ` set (c_stopWaits (children (deliver w e) ! g)) = fst ` set (c_stopWaits (children w ! g))"
proof -
  have "fst ` set (map (\<lambda>(p, d). (p, True)) ws) = fst ` set ws" for ws :: "(pid \<times> bool) list"
    by (induction ws) auto
  then show ?thesis
    by (simp add: stopWaits_deliver)
qed

lemma owns_deliver:
  assumes "owns w p h"
  shows "owns (deliver w e) p h"
  unfolding owns_def
proof (intro allI impI)
  fix g
  assume g: "g < length (children (deliver w e))" "g \<noteq> h"
    and open_: "c_phase (children (deliver w e) ! g) \<noteq> Closed"
  from open_ have "c_phase (children w ! g) \<noteq> Closed"
    by (simp add: closed_deliver)
  with assms g have "c_pid (children w ! g) \<noteq> p \<and> p \<notin> fst ` set (c_stopWaits (children w ! g))"
    by (simp add: owns_def)
  then show "c_pid (children (deliver w e) ! g) \<noteq> p \<and>
      p \<notin> fst ` set (c_stopWaits (children (deliver w e) ! g))"
    by (simp add: keys_stopWaits_deliver)
qed

lemma owns_step: "owns w p h \<Longrightarrow> owns (step w e) p h"
  by (simp add: step_def owns_deliver)

lemma entry_deliver:
  assumes own: "owns w p h" and other: "\<not> closing w e h"
  shows "map_of (processes (deliver w e)) p = map_of (processes w) p"
proof (cases e)
  case (ChildClose g)
  show ?thesis
  proof (cases "closing w e g")
    case False
    then show ?thesis
      by (auto simp add: ChildClose closing_def)
  next
    case True
    with other have "g \<noteq> h"
      by auto
    moreover from True have "g < length (children w)" "c_phase (children w ! g) \<noteq> Closed"
      by (auto simp add: closing_def closePossible_def)
    ultimately have "c_pid (children w ! g) \<noteq> p" "p \<notin> fst ` set (c_stopWaits (children w ! g))"
      using own by (simp_all add: owns_def)
    then show ?thesis
      using True
      by (simp add: ChildClose closing_def closeListeners_def Let_def map_of_foldl_delete_other)
  qed
qed (simp_all add: Let_def)

lemma entry_while_open:
  assumes "owns w p h" and "c_phase (children (run w es) ! h) \<noteq> Closed"
  shows "map_of (processes (run w es)) p = map_of (processes w) p"
  using assms
proof (induction es arbitrary: w)
  case Nil
  show ?case by simp
next
  case (Cons e es)
  have "c_phase (children (step w e) ! h) \<noteq> Closed"
    using Cons.prems(2) closed_run [of "step w e" h es] by auto
  then have "crashed w \<or> \<not> closing w e h"
    by (auto simp add: step_def closed_deliver)
  then have "map_of (processes (step w e)) p = map_of (processes w) p"
    using Cons.prems(1) by (auto simp add: step_def entry_deliver)
  moreover have "map_of (processes (run (step w e) es)) p = map_of (processes (step w e)) p"
    using Cons.prems by (intro Cons.IH owns_step) simp_all
  ultimately show ?case by simp
qed

lemma running_is_tracked:
  assumes "owns w p h" and "map_of (processes w) p = Some info"
    and "c_phase (children (run w es) ! h) = Running"
  shows "has (run w es) p"
  using entry_while_open [OF assms(1), of es] assms(2,3) by (simp add: has_def)

lemma unshared_launch:
  assumes "start_launch hst w projectPath opts newPid now = (Inr h, w0)"
    and "unshared w newPid"
  shows "owns w0 newPid h"
  unfolding owns_def
proof (intro allI impI)
  fix g
  assume "g < length (children w0)" "g \<noteq> h" and open_: "c_phase (children w0 ! g) \<noteq> Closed"
  then have g: "g < length (children w)"
    using start_launch_shape(1,2) [OF assms(1)] by simp
  then have same: "children w0 ! g = children w ! g"
    using start_launch_shape(5) [OF assms(1)] by simp
  from g have "children w ! g \<in> set (children w)"
    by simp
  with assms(2) open_ same show "c_pid (children w0 ! g) \<noteq> newPid \<and>
      newPid \<notin> fst ` set (c_stopWaits (children w0 ! g))"
    by (simp add: unshared_def)
qed

section \<open>Escalation timers belong to children that exist\<close>

lemma timers_deliver: "set (stopTimers (deliver w e)) \<subseteq> set (stopTimers w)"
proof (cases e)
  case (EscalationTimer p h)
  have "set (remove1 (p, h, escalationDelay) (stopTimers w)) \<subseteq> set (stopTimers w)"
    by (rule set_remove1_subset)
  then show ?thesis
    by (auto simp add: EscalationTimer Let_def)
qed (simp_all add: closeListeners_def Let_def)

lemma timers_run: "set (stopTimers (run w es)) \<subseteq> set (stopTimers w)"
proof (induction es arbitrary: w)
  case Nil
  show ?case by simp
next
  case (Cons e es)
  have "set (stopTimers (run (step w e) es)) \<subseteq> set (stopTimers (step w e))"
    by (rule Cons.IH)
  also have "\<dots> \<subseteq> set (stopTimers w)"
    by (simp add: step_def timers_deliver)
  finally show ?case by simp
qed

lemma signals_deliver_untimed:
  "\<forall>p. (p, h, escalationDelay) \<notin> set (stopTimers w) \<Longrightarrow>
   c_signals (children (deliver w e) ! h) = c_signals (children w ! h)"
  by (cases e)
    (auto simp add: nth_upd_child closeListeners_def Let_def handler_defs nth_list_update
      split: option.splits)

lemma signals_run_untimed:
  "\<forall>p. (p, h, escalationDelay) \<notin> set (stopTimers w) \<Longrightarrow>
   c_signals (children (run w es) ! h) = c_signals (children w ! h)"
proof (induction es arbitrary: w)
  case Nil
  show ?case by simp
next
  case (Cons e es)
  have "\<forall>p. (p, h, escalationDelay) \<notin> set (stopTimers (step w e))"
    using Cons.prems timers_deliver [of w e] by (auto simp add: step_def)
  then have "c_signals (children (run (step w e) es) ! h) = c_signals (children (step w e) ! h)"
    by (rule Cons.IH)
  also have "\<dots> = c_signals (children w ! h)"
    using Cons.prems by (simp add: step_def signals_deliver_untimed)
  finally show ?case by simp
qed

lemma timersBound_emptyWorld: "timersBound emptyWorld"
  by (simp add: timersBound_def emptyWorld_def)

lemma timersBound_start_launch:
  "timersBound w \<Longrightarrow> timersBound (snd (start_launch hst w projectPath opts newPid now))"
  by (auto simp add: timersBound_def start_launch_def Let_def split: sum.splits)

lemma timersBound_stop: "wf w \<Longrightarrow> timersBound w \<Longrightarrow> timersBound (snd (stop w q))"
  by (auto simp add: timersBound_def wf_def stop_def Let_def split: option.splits
      dest!: map_of_SomeD)

lemma timersBound_step: "timersBound w \<Longrightarrow> timersBound (step w e)"
  using timers_deliver [of w e] by (auto simp add: timersBound_def step_def)

lemma timersBound_launch:
  assumes "start_launch hst w projectPath opts newPid now = (Inr h, w0)" and "timersBound w"
  shows "\<forall>p. (p, h, escalationDelay) \<notin> set (stopTimers w0)"
  using assms start_launch_shape(1,4) [OF assms(1)] by (auto simp add: timersBound_def)


lemma owns_stop:
  assumes "map_of (processes w) p = Some info" and "pi_process info < length (children w)"
    and "owns w p (pi_process info)"
  shows "owns (snd (stop w p)) p (pi_process info)"
  using assms(3) by (simp add: owns_def stop_tracked [OF assms(1,2)] nth_list_update)
section \<open>The claims\<close>

lemma demo_launch:
  "start_launch demoHost emptyWorld ''/app'' demoOptions (Pid 4242) 0 = (Inr 0, demoLaunched)"
  by (simp add: demoLaunched_def start_launch_def demoHost_def demoOptions_def emptyWorld_def
      validateProjectPath_def path_join_def resolvePort_def Let_def spawnedChild_def armed_def)

lemma demoLaunched_eq:
  "demoLaunched =
     \<lparr>processes = [(Pid 4242, \<lparr>pi_id = Pid 4242, pi_port = 5173, pi_projectPath = ''/app'',
                              pi_startTime = 0, pi_process = 0\<rparr>)],
      children = [\<lparr>c_pid = Pid 4242, c_command = ''pnpm'', c_args = [''run'', ''dev''],
                   c_cwd = ''/app'', c_env = composeEnv demoHost 5173 demoOptions,
                   c_port = 5173, c_phase = Running, c_signals = [],
                   c_timeout = Some 60000, c_exitL = True, c_errorL = True, c_stdoutL = True,
                   c_poller = True, c_ready = Pending, c_stopWaits = []\<rparr>],
      stopTimers = [], crashed = False\<rparr>"
  by (simp add: demoLaunched_def start_launch_def demoHost_def demoOptions_def emptyWorld_def
      validateProjectPath_def path_join_def resolvePort_def Let_def spawnedChild_def armed_def detectPackageManager_def
      spawnCommand_def spawnArgs_def)

lemma demo_marker_state:
  "children (run demoLaunched demoMarker) ! 0 =
     \<lparr>c_pid = Pid 4242, c_command = ''pnpm'', c_args = [''run'', ''dev''],
      c_cwd = ''/app'', c_env = composeEnv demoHost 5173 demoOptions,
      c_port = 5173, c_phase = Running, c_signals = [],
      c_timeout = None, c_exitL = False, c_errorL = False, c_stdoutL = False,
      c_poller = True, c_ready = Ready, c_stopWaits = []\<rparr>"
  by (simp add: demoMarker_def demoLaunched_eq step_def upd_child_def handler_defs
      isReadyOutput_def)

lemma demo_timeout_state:
  "step demoLaunched (StartupTimer 0) =
     \<lparr>processes = [(Pid 4242, \<lparr>pi_id = Pid 4242, pi_port = 5173, pi_projectPath = ''/app'',
                              pi_startTime = 0, pi_process = 0\<rparr>)],
      children = [\<lparr>c_pid = Pid 4242, c_command = ''pnpm'', c_args = [''run'', ''dev''],
                   c_cwd = ''/app'', c_env = composeEnv demoHost 5173 demoOptions,
                   c_port = 5173, c_phase = Running, c_signals = [],
                   c_timeout = None, c_exitL = False, c_errorL = False, c_stdoutL = False,
                   c_poller = True, c_ready = Failed (StartupTimedOut 60000),
                   c_stopWaits = []\<rparr>],
      stopTimers = [], crashed = False\<rparr>"
  by (simp add: demoLaunched_eq step_def upd_child_def handler_defs)

lemma demoReady_eq:
  "demoReady =
     \<lparr>processes = [(Pid 4242, \<lparr>pi_id = Pid 4242, pi_port = 5173, pi_projectPath = ''/app'',
                              pi_startTime = 0, pi_process = 0\<rparr>)],
      children = [\<lparr>c_pid = Pid 4242, c_command = ''pnpm'', c_args = [''run'', ''dev''],
                   c_cwd = ''/app'', c_env = composeEnv demoHost 5173 demoOptions,
                   c_port = 5173, c_phase = Running, c_signals = [],
                   c_timeout = None, c_exitL = False, c_errorL = False, c_stdoutL = False,
                   c_poller = False, c_ready = Ready, c_stopWaits = []\<rparr>],
      stopTimers = [], crashed = False\<rparr>"
  by (simp add: demoReady_def demoLaunched_eq step_def upd_child_def handler_defs)

lemma demoStopping_eq:
  "demoStopping =
     \<lparr>processes = [(Pid 4242, \<lparr>pi_id = Pid 4242, pi_port = 5173, pi_projectPath = ''/app'',
                              pi_startTime = 0, pi_process = 0\<rparr>)],
      children = [\<lparr>c_pid = Pid 4242, c_command = ''pnpm'', c_args = [''run'', ''dev''],
                   c_cwd = ''/app'', c_env = composeEnv demoHost 5173 demoOptions,
                   c_port = 5173, c_phase = Running,
                   c_signals = [SIGTERM],
                   c_timeout = None, c_exitL = False, c_errorL = False, c_stdoutL = False,
                   c_poller = False, c_ready = Ready, c_stopWaits = [(Pid 4242, False)]\<rparr>],
      stopTimers = [(Pid 4242, 0, 5000)], crashed = False\<rparr>"
  by (simp add: demoStopping_def demoReady_eq stop_def Let_def upd_child_def kill_def
      escalationDelay_def)

lemma demo_stop: "stop demoReady (Pid 4242) = (Inr (0, 0), demoStopping)"
  by (simp add: demoStopping_def) (simp add: demoReady_eq stop_def Let_def)

lemma wf_demoReady: "wf demoReady"
  by (simp add: wf_def demoReady_eq)

lemma demo_exit_state:
  "step demoStopping (ChildExit 0 None) =
     \<lparr>processes = [(Pid 4242, \<lparr>pi_id = Pid 4242, pi_port = 5173, pi_projectPath = ''/app'',
                              pi_startTime = 0, pi_process = 0\<rparr>)],
      children = [\<lparr>c_pid = Pid 4242, c_command = ''pnpm'', c_args = [''run'', ''dev''],
                   c_cwd = ''/app'', c_env = composeEnv demoHost 5173 demoOptions,
                   c_port = 5173, c_phase = Exited,
                   c_signals = [SIGTERM],
                   c_timeout = None, c_exitL = False, c_errorL = False, c_stdoutL = False,
                   c_poller = False, c_ready = Ready, c_stopWaits = [(Pid 4242, False)]\<rparr>],
      stopTimers = [(Pid 4242, 0, 5000)], crashed = False\<rparr>"
  by (simp add: demoStopping_eq step_def upd_child_def)

lemma demo_close_state:
  "step (step demoStopping (ChildExit 0 None)) (ChildClose 0) =
     \<lparr>processes = [],
      children = [\<lparr>c_pid = Pid 4242, c_command = ''pnpm'', c_args = [''run'', ''dev''],
                   c_cwd = ''/app'', c_env = composeEnv demoHost 5173 demoOptions,
                   c_port = 5173, c_phase = Closed,
                   c_signals = [SIGTERM],
                   c_timeout = None, c_exitL = False, c_errorL = False, c_stdoutL = False,
                   c_poller = False, c_ready = Ready, c_stopWaits = [(Pid 4242, True)]\<rparr>],
      stopTimers = [(Pid 4242, 0, 5000)], crashed = False\<rparr>"
  by (simp only: demo_exit_state) (simp add: step_def closeListeners_def phase_defs)

lemma demo_stopped_run: "run demoStopping [ChildExit 0 None, ChildClose 0] = demoStopped"
  by (simp add: demoStopped_def)

lemma demoStopped_eq:
  "demoStopped =
     \<lparr>processes = [],
      children = [\<lparr>c_pid = Pid 4242, c_command = ''pnpm'', c_args = [''run'', ''dev''],
                   c_cwd = ''/app'', c_env = composeEnv demoHost 5173 demoOptions,
                   c_port = 5173, c_phase = Closed,
                   c_signals = [SIGTERM],
                   c_timeout = None, c_exitL = False, c_errorL = False, c_stdoutL = False,
                   c_poller = False, c_ready = Ready, c_stopWaits = [(Pid 4242, True)]\<rparr>],
      stopTimers = [(Pid 4242, 0, 5000)], crashed = False\<rparr>"
  by (simp add: demoStopped_def demo_close_state)

lemma demoTwo_eq:
  "demoTwo =
     \<lparr>processes = [(Pid 4242, \<lparr>pi_id = Pid 4242, pi_port = 5173, pi_projectPath = ''/app'',
                              pi_startTime = 0, pi_process = 0\<rparr>),
                   (Pid 4243, \<lparr>pi_id = Pid 4243, pi_port = 5174, pi_projectPath = ''/app'',
                              pi_startTime = 1, pi_process = 1\<rparr>)],
      children = [\<lparr>c_pid = Pid 4242, c_command = ''pnpm'', c_args = [''run'', ''dev''],
                   c_cwd = ''/app'', c_env = composeEnv demoHost 5173 demoOptions,
                   c_port = 5173, c_phase = Exited, c_signals = [],
                   c_timeout = None, c_exitL = False, c_errorL = False, c_stdoutL = False,
                   c_poller = False, c_ready = Ready, c_stopWaits = []\<rparr>,
                  \<lparr>c_pid = Pid 4243, c_command = ''pnpm'', c_args = [''run'', ''dev''],
                   c_cwd = ''/app'', c_env = composeEnv demoHost 5174 demoSecondOptions,
                   c_port = 5174, c_phase = Running, c_signals = [],
                   c_timeout = None, c_exitL = False, c_errorL = False, c_stdoutL = False,
                   c_poller = True, c_ready = Ready, c_stopWaits = []\<rparr>],
      stopTimers = [], crashed = False\<rparr>"
  by (simp add: demoTwo_def demoReady_eq start_launch_def demoHost_def demoSecondOptions_def
      validateProjectPath_def path_join_def resolvePort_def Let_def spawnedChild_def armed_def detectPackageManager_def
      spawnCommand_def spawnArgs_def step_def upd_child_def handler_defs isReadyOutput_def
      spawnedChild_def armed_def)

lemma demoTwoStopping_eq:
  "demoTwoStopping =
     \<lparr>processes = [(Pid 4242, \<lparr>pi_id = Pid 4242, pi_port = 5173, pi_projectPath = ''/app'',
                              pi_startTime = 0, pi_process = 0\<rparr>),
                   (Pid 4243, \<lparr>pi_id = Pid 4243, pi_port = 5174, pi_projectPath = ''/app'',
                              pi_startTime = 1, pi_process = 1\<rparr>)],
      children = [\<lparr>c_pid = Pid 4242, c_command = ''pnpm'', c_args = [''run'', ''dev''],
                   c_cwd = ''/app'', c_env = composeEnv demoHost 5173 demoOptions,
                   c_port = 5173, c_phase = Exited,
                   c_signals = [],
                   c_timeout = None, c_exitL = False, c_errorL = False, c_stdoutL = False,
                   c_poller = False, c_ready = Ready, c_stopWaits = [(Pid 4242, False)]\<rparr>,
                  \<lparr>c_pid = Pid 4243, c_command = ''pnpm'', c_args = [''run'', ''dev''],
                   c_cwd = ''/app'', c_env = composeEnv demoHost 5174 demoSecondOptions,
                   c_port = 5174, c_phase = Running,
                   c_signals = [SIGTERM],
                   c_timeout = None, c_exitL = False, c_errorL = False, c_stdoutL = False,
                   c_poller = True, c_ready = Ready, c_stopWaits = [(Pid 4243, False)]\<rparr>],
      stopTimers = [(Pid 4242, 0, 5000), (Pid 4243, 1, 5000)], crashed = False\<rparr>"
  by (simp add: demoTwoStopping_def stopAll_def demoTwo_eq stop_def Let_def upd_child_def
      kill_def escalationDelay_def)

lemma demo_stopAll: "stopAll demoTwo = (demoBatch, demoTwoStopping)"
  by (simp add: demoTwoStopping_def demoBatch_def prod_eq_iff)
    (simp add: stopAll_def demoTwo_eq stop_def Let_def upd_child_def kill_def)

lemma wf_demoTwo: "wf demoTwo"
  by (simp add: wf_def demoTwo_eq)

lemma demo_batch_pending:
  "promiseAll (run demoTwoStopping [ChildClose 0]) demoBatch = StillPending"
  by (simp add: demoTwoStopping_eq demoBatch_def step_def closeListeners_def stopResolved_def
      phase_defs)

lemma demo_batch_done:
  "c_phase (children (run demoTwoStopping [ChildClose 0, ChildExit 1 None, ChildClose 1]) ! 0) = Closed \<and>
   c_phase (children (run demoTwoStopping [ChildClose 0, ChildExit 1 None, ChildClose 1]) ! 1) = Closed"
  by (simp add: demoTwoStopping_eq step_def closeListeners_def upd_child_def phase_defs)

lemma demo_launch_unarmed:
  "start_launch demoHostConfigJs emptyWorld ''/app'' demoOptions (Pid 4242) 0 = (Inr 0, demoUnarmed)"
  by (simp add: demoUnarmed_def start_launch_def demoHostConfigJs_def demoHost_def demoOptions_def
      emptyWorld_def validateProjectPath_def path_join_def resolvePort_def Let_def)

lemma demoUnarmed_eq:
  "demoUnarmed =
     \<lparr>processes = [(Pid 4242, \<lparr>pi_id = Pid 4242, pi_port = 5173, pi_projectPath = ''/app'',
                              pi_startTime = 0, pi_process = 0\<rparr>)],
      children = [\<lparr>c_pid = Pid 4242, c_command = ''pnpm'', c_args = [''run'', ''dev''],
                   c_cwd = ''/app'', c_env = composeEnv demoHostConfigJs 5173 demoOptions,
                   c_port = 5173, c_phase = Running, c_signals = [],
                   c_timeout = None, c_exitL = False, c_errorL = False, c_stdoutL = False,
                   c_poller = False, c_ready = Failed (TypeError ''startupTimeout''),
                   c_stopWaits = []\<rparr>],
      stopTimers = [], crashed = False\<rparr>"
  by (simp add: demoUnarmed_def start_launch_def demoHostConfigJs_def demoHost_def demoOptions_def
      emptyWorld_def validateProjectPath_def path_join_def resolvePort_def Let_def
      spawnedChild_def unarmed_def detectPackageManager_def spawnCommand_def spawnArgs_def)

lemma demo_unarmed_exit_state:
  "step demoUnarmed (ChildExit 0 (Some 1)) =
     \<lparr>processes = [(Pid 4242, \<lparr>pi_id = Pid 4242, pi_port = 5173, pi_projectPath = ''/app'',
                              pi_startTime = 0, pi_process = 0\<rparr>)],
      children = [\<lparr>c_pid = Pid 4242, c_command = ''pnpm'', c_args = [''run'', ''dev''],
                   c_cwd = ''/app'', c_env = composeEnv demoHostConfigJs 5173 demoOptions,
                   c_port = 5173, c_phase = Exited, c_signals = [],
                   c_timeout = None, c_exitL = False, c_errorL = False, c_stdoutL = False,
                   c_poller = False, c_ready = Failed (TypeError ''startupTimeout''),
                   c_stopWaits = []\<rparr>],
      stopTimers = [], crashed = False\<rparr>"
  by (simp add: demoUnarmed_eq step_def upd_child_def)

lemma demo_launch_failed_spawn:
  "start_launch demoHost emptyWorld ''/app'' demoOptions Undefined 0 = (Inr 0, demoFailedSpawn)"
  by (simp add: demoFailedSpawn_def start_launch_def demoHost_def demoOptions_def emptyWorld_def
      validateProjectPath_def path_join_def resolvePort_def Let_def)

lemma demoFailedSpawn_eq:
  "demoFailedSpawn =
     \<lparr>processes = [(Undefined, \<lparr>pi_id = Undefined, pi_port = 5173, pi_projectPath = ''/app'',
                               pi_startTime = 0, pi_process = 0\<rparr>)],
      children = [\<lparr>c_pid = Undefined, c_command = ''pnpm'', c_args = [''run'', ''dev''],
                   c_cwd = ''/app'', c_env = composeEnv demoHost 5173 demoOptions,
                   c_port = 5173, c_phase = SpawnFailed, c_signals = [],
                   c_timeout = Some 60000, c_exitL = True, c_errorL = True, c_stdoutL = True,
                   c_poller = True, c_ready = Pending, c_stopWaits = []\<rparr>],
      stopTimers = [], crashed = False\<rparr>"
  by (simp add: demoFailedSpawn_def start_launch_def demoHost_def demoOptions_def emptyWorld_def
      validateProjectPath_def path_join_def resolvePort_def Let_def spawnedChild_def armed_def
      detectPackageManager_def spawnCommand_def spawnArgs_def)

lemma demo_spawn_error_state:
  "step demoFailedSpawn (ChildError 0) =
     \<lparr>processes = [(Undefined, \<lparr>pi_id = Undefined, pi_port = 5173, pi_projectPath = ''/app'',
                               pi_startTime = 0, pi_process = 0\<rparr>)],
      children = [\<lparr>c_pid = Undefined, c_command = ''pnpm'', c_args = [''run'', ''dev''],
                   c_cwd = ''/app'', c_env = composeEnv demoHost 5173 demoOptions,
                   c_port = 5173, c_phase = Errored, c_signals = [],
                   c_timeout = None, c_exitL = False, c_errorL = False, c_stdoutL = False,
                   c_poller = True, c_ready = Failed ChildErrored, c_stopWaits = []\<rparr>],
      stopTimers = [], crashed = False\<rparr>"
  by (simp add: demoFailedSpawn_eq step_def upd_child_def handler_defs phase_defs)

lemma demo_exit_before_ready_state:
  "step demoLaunched (ChildExit 0 (Some 1)) =
     \<lparr>processes = [(Pid 4242, \<lparr>pi_id = Pid 4242, pi_port = 5173, pi_projectPath = ''/app'',
                              pi_startTime = 0, pi_process = 0\<rparr>)],
      children = [\<lparr>c_pid = Pid 4242, c_command = ''pnpm'', c_args = [''run'', ''dev''],
                   c_cwd = ''/app'', c_env = composeEnv demoHost 5173 demoOptions,
                   c_port = 5173, c_phase = Exited, c_signals = [],
                   c_timeout = None, c_exitL = False, c_errorL = False, c_stdoutL = False,
                   c_poller = True, c_ready = Failed (ExitCode (Some 1)), c_stopWaits = []\<rparr>],
      stopTimers = [], crashed = False\<rparr>"
  by (simp add: demoLaunched_eq step_def upd_child_def handler_defs)

lemma demoReused_eq:
  "demoReused =
     \<lparr>processes = [(Pid 4242, \<lparr>pi_id = Pid 4242, pi_port = 5174, pi_projectPath = ''/app'',
                              pi_startTime = 1, pi_process = 1\<rparr>)],
      children = [\<lparr>c_pid = Pid 4242, c_command = ''pnpm'', c_args = [''run'', ''dev''],
                   c_cwd = ''/app'', c_env = composeEnv demoHost 5173 demoOptions,
                   c_port = 5173, c_phase = Exited, c_signals = [],
                   c_timeout = None, c_exitL = False, c_errorL = False, c_stdoutL = False,
                   c_poller = False, c_ready = Ready, c_stopWaits = []\<rparr>,
                  \<lparr>c_pid = Pid 4242, c_command = ''pnpm'', c_args = [''run'', ''dev''],
                   c_cwd = ''/app'', c_env = composeEnv demoHost 5174 demoSecondOptions,
                   c_port = 5174, c_phase = Running, c_signals = [],
                   c_timeout = None, c_exitL = False, c_errorL = False, c_stdoutL = False,
                   c_poller = False, c_ready = Ready, c_stopWaits = []\<rparr>],
      stopTimers = [], crashed = False\<rparr>"
  by (simp add: demoReused_def demoReady_eq start_launch_def demoHost_def demoSecondOptions_def
      validateProjectPath_def path_join_def resolvePort_def Let_def spawnedChild_def armed_def
      detectPackageManager_def spawnCommand_def spawnArgs_def step_def upd_child_def handler_defs)

lemma demoReusedStopping_eq:
  "demoReusedStopping =
     \<lparr>processes = [(Pid 4242, \<lparr>pi_id = Pid 4242, pi_port = 5174, pi_projectPath = ''/app'',
                              pi_startTime = 1, pi_process = 1\<rparr>)],
      children = [\<lparr>c_pid = Pid 4242, c_command = ''pnpm'', c_args = [''run'', ''dev''],
                   c_cwd = ''/app'', c_env = composeEnv demoHost 5173 demoOptions,
                   c_port = 5173, c_phase = Exited, c_signals = [],
                   c_timeout = None, c_exitL = False, c_errorL = False, c_stdoutL = False,
                   c_poller = False, c_ready = Ready, c_stopWaits = []\<rparr>,
                  \<lparr>c_pid = Pid 4242, c_command = ''pnpm'', c_args = [''run'', ''dev''],
                   c_cwd = ''/app'', c_env = composeEnv demoHost 5174 demoSecondOptions,
                   c_port = 5174, c_phase = Running, c_signals = [SIGTERM],
                   c_timeout = None, c_exitL = False, c_errorL = False, c_stdoutL = False,
                   c_poller = False, c_ready = Ready, c_stopWaits = [(Pid 4242, False)]\<rparr>],
      stopTimers = [(Pid 4242, 1, 5000)], crashed = False\<rparr>"
  by (simp add: demoReusedStopping_def demoReused_eq stop_def Let_def upd_child_def kill_def
      escalationDelay_def)

lemma demo_reused_close_state:
  "step demoReusedStopping (ChildClose 0) =
     \<lparr>processes = [],
      children = [\<lparr>c_pid = Pid 4242, c_command = ''pnpm'', c_args = [''run'', ''dev''],
                   c_cwd = ''/app'', c_env = composeEnv demoHost 5173 demoOptions,
                   c_port = 5173, c_phase = Closed, c_signals = [],
                   c_timeout = None, c_exitL = False, c_errorL = False, c_stdoutL = False,
                   c_poller = False, c_ready = Ready, c_stopWaits = []\<rparr>,
                  \<lparr>c_pid = Pid 4242, c_command = ''pnpm'', c_args = [''run'', ''dev''],
                   c_cwd = ''/app'', c_env = composeEnv demoHost 5174 demoSecondOptions,
                   c_port = 5174, c_phase = Running, c_signals = [SIGTERM],
                   c_timeout = None, c_exitL = False, c_errorL = False, c_stdoutL = False,
                   c_poller = False, c_ready = Ready, c_stopWaits = [(Pid 4242, False)]\<rparr>],
      stopTimers = [(Pid 4242, 1, 5000)], crashed = False\<rparr>"
  by (simp add: demoReusedStopping_eq step_def closeListeners_def phase_defs)

subsection \<open>C8: package manager detection\<close>

text \<open>
  C8. \<^verbatim>\<open>detectPackageManager\<close> follows a fixed precedence: a pnpm lock file gives pnpm;
  otherwise a yarn lock file gives yarn; otherwise an npm lock file gives npm; otherwise a
  manifest that declares a \<^verbatim>\<open>dev\<close> script gives npm; otherwise the result is npm.
\<close>

theorem detectPackageManager_precedence:
  fixes hst projectPath
  defines "dir \<equiv> resolveAbsolutePath hst projectPath"
  defines "pm \<equiv> detectPackageManager hst projectPath"
  shows "(access hst (path_join dir ''pnpm-lock.yaml'') \<longrightarrow> pm = ''pnpm'') \<and>
         (\<not> access hst (path_join dir ''pnpm-lock.yaml'') \<and> access hst (path_join dir ''yarn.lock'')
            \<longrightarrow> pm = ''yarn'') \<and>
         (\<not> access hst (path_join dir ''pnpm-lock.yaml'') \<and> \<not> access hst (path_join dir ''yarn.lock'') \<and>
          access hst (path_join dir ''package-lock.json'') \<longrightarrow> pm = ''npm'') \<and>
         (\<not> access hst (path_join dir ''pnpm-lock.yaml'') \<and> \<not> access hst (path_join dir ''yarn.lock'') \<and>
          \<not> access hst (path_join dir ''package-lock.json'') \<and>
          (\<exists>m. readPackageJson hst (path_join dir ''package.json'') = Some m \<and> hasDevScript m)
            \<longrightarrow> pm = ''npm'') \<and>
         (\<not> access hst (path_join dir ''pnpm-lock.yaml'') \<and> \<not> access hst (path_join dir ''yarn.lock'') \<and>
          \<not> access hst (path_join dir ''package-lock.json'') \<and>
          \<not> (\<exists>m. readPackageJson hst (path_join dir ''package.json'') = Some m \<and> hasDevScript m)
            \<longrightarrow> pm = ''npm'')"
  by (auto simp add: dir_def pm_def detectPackageManager_def Let_def split: option.splits)

theorem detectPackageManager_precedence_witness:
  "access demoHost (path_join ''/app'' ''pnpm-lock.yaml'') \<and>
   access demoHost (path_join ''/app'' ''yarn.lock'') \<and>
   detectPackageManager demoHost ''/app'' = ''pnpm'' \<and>
   detectPackageManager (demoHost\<lparr>access := (\<lambda>p. p = ''/app/yarn.lock'' \<or> p = ''/app/package-lock.json'')\<rparr>)
     ''/app'' = ''yarn'' \<and>
   detectPackageManager (demoHost\<lparr>access := (\<lambda>p. p = ''/app/package-lock.json'')\<rparr>) ''/app'' = ''npm'' \<and>
   detectPackageManager (demoHost\<lparr>access := (\<lambda>p. False),
       readPackageJson := (\<lambda>p. Some \<lparr>scripts = Some [(''dev'', ''vite'')]\<rparr>)\<rparr>) ''/app'' = ''npm'' \<and>
   detectPackageManager (demoHost\<lparr>access := (\<lambda>p. False)\<rparr>) ''/app'' = ''npm''"
proof -
  have r: "resolveAbsolutePath (demoHost\<lparr>access := a, readPackageJson := m\<rparr>) p = p"
    "resolveAbsolutePath (demoHost\<lparr>access := a\<rparr>) p = p" "resolveAbsolutePath demoHost p = p"
    for a m p
    by (simp_all add: demoHost_def)
  have d: "hasDevScript \<lparr>scripts = Some [(''dev'', ''vite'')]\<rparr>"
    by (simp add: hasDevScript_def)
  have n: "readPackageJson demoHost p = None" for p
    by (simp add: demoHost_def)
  have a: "access demoHost (path_join ''/app'' ''pnpm-lock.yaml'') \<and>
      access demoHost (path_join ''/app'' ''yarn.lock'')"
    by (simp add: demoHost_def path_join_def)
  show ?thesis
    using detectPackageManager_precedence [of demoHost "''/app''"]
      detectPackageManager_precedence
        [of "demoHost\<lparr>access := (\<lambda>p. p = ''/app/yarn.lock'' \<or> p = ''/app/package-lock.json'')\<rparr>" "''/app''"]
      detectPackageManager_precedence [of "demoHost\<lparr>access := (\<lambda>p. p = ''/app/package-lock.json'')\<rparr>" "''/app''"]
      detectPackageManager_precedence
        [of "demoHost\<lparr>access := (\<lambda>p. False),
              readPackageJson := (\<lambda>p. Some \<lparr>scripts = Some [(''dev'', ''vite'')]\<rparr>)\<rparr>" "''/app''"]
      detectPackageManager_precedence [of "demoHost\<lparr>access := (\<lambda>p. False)\<rparr>" "''/app''"]
      a d
    by (simp add: r n path_join_def)
qed

subsection \<open>C10: the environment of the child\<close>

lemma composeEnv_apply:
  "composeEnv hst port opts key =
     (case (case opt_env opts of None \<Rightarrow> None | Some e \<Rightarrow> e key) of
        Some v \<Rightarrow> Some v
      | None \<Rightarrow>
         (if key = ''PORT'' then Some (Num port)
          else if key = ''BROWSER'' then Some (Str ''none'')
          else if key = ''FORCE_COLOR'' then Some (Str ''1'')
          else processEnv hst key))"
  by (cases "opt_env opts")
    (simp_all add: composeEnv_def injectedEnv_def map_add_def split: option.splits)

text \<open>
  C10. In the environment \<^verbatim>\<open>start\<close> spawns the child with, a key of \<^verbatim>\<open>options.env\<close>
  has the caller's value, also when it is \<^verbatim>\<open>PORT\<close>, \<^verbatim>\<open>BROWSER\<close>, \<^verbatim>\<open>FORCE_COLOR\<close> or a
  variable of the supervisor; a key absent from \<^verbatim>\<open>options.env\<close> has the injected value
  when it is one of those three (\<^verbatim>\<open>PORT\<close> being the resolved port), and the
  supervisor's own value otherwise.
\<close>

theorem child_env_precedence:
  assumes "start_launch hst w projectPath opts newPid now = (Inr h, w0)"
  shows "resolvePort hst opts = Inr (c_port (children w0 ! h)) \<and>
         c_env (children w0 ! h) key =
           (case (case opt_env opts of None \<Rightarrow> None | Some e \<Rightarrow> e key) of
              Some v \<Rightarrow> Some v
            | None \<Rightarrow>
               (if key = ''PORT'' then Some (Num (c_port (children w0 ! h)))
                else if key = ''BROWSER'' then Some (Str ''none'')
                else if key = ''FORCE_COLOR'' then Some (Str ''1'')
                else processEnv hst key))"
proof -
  have env: "c_env (children w0 ! h) = composeEnv hst (c_port (children w0 ! h)) opts"
    using assms by (rule start_launch_child)
  have port: "resolvePort hst opts = Inr (c_port (children w0 ! h))"
    using assms by (rule start_launch_child)
  show ?thesis
    unfolding env using port composeEnv_apply by blast
qed

theorem child_env_precedence_witness:
  "start_launch demoHost emptyWorld ''/app'' demoOptions (Pid 4242) 0 = (Inr 0, demoLaunched) \<and>
   c_env (children demoLaunched ! 0) ''PORT'' = Some (Str ''8080'') \<and>
   c_env (children demoLaunched ! 0) ''BROWSER'' = Some (Str ''none'') \<and>
   c_env (children demoLaunched ! 0) ''HOME'' = Some (Str ''/root'')"
  using child_env_precedence [OF demo_launch, of "''PORT''"]
    child_env_precedence [OF demo_launch, of "''BROWSER''"]
    child_env_precedence [OF demo_launch, of "''HOME''"] demo_launch
  by (simp add: demoOptions_def demoHost_def)

subsection \<open>C9: a project path that is not a project\<close>

text \<open>
  C9. When the directory of \<^verbatim>\<open>projectPath\<close> does not exist or holds no
  \<^verbatim>\<open>package.json\<close>, \<^verbatim>\<open>start\<close> throws the error of \<^verbatim>\<open>validateProjectPath\<close> before it
  spawns: the state is the one it was called in (no child object is added, the registry is
  unchanged) and the result is the same whatever the ports' state, none being probed.
  (\<^verbatim>\<open>start\<close> resolves the path and \<^verbatim>\<open>validateProjectPath\<close> resolves it again, hence the
  two applications of \<open>resolveAbsolutePath\<close>.)
\<close>

theorem start_invalid_project:
  assumes "\<not> existsSync hst (resolveAbsolutePath hst (resolveAbsolutePath hst projectPath)) \<or>
           \<not> existsSync hst (path_join (resolveAbsolutePath hst (resolveAbsolutePath hst projectPath))
                                ''package.json'')"
  shows "\<exists>e. InvalidProjectError e \<and>
           (\<forall>bindable. start_launch (hst\<lparr>portBindable := bindable\<rparr>) w projectPath opts newPid now
                         = (Inl e, w))"
proof (cases "existsSync hst (resolveAbsolutePath hst (resolveAbsolutePath hst projectPath))")
  case True
  with assms show ?thesis
    by (simp add: start_launch_def validateProjectPath_def Let_def InvalidProjectError_def)
next
  case False
  then show ?thesis
    by (simp add: start_launch_def validateProjectPath_def Let_def InvalidProjectError_def)
qed

theorem start_invalid_project_witness:
  "\<not> existsSync demoHost (path_join ''/nowhere'' ''package.json'') \<and>
   start_launch demoHost demoLaunched ''/nowhere'' demoOptions (Pid 17) 0
     = (Inl (DirectoryDoesNotExist ''/nowhere''), demoLaunched)"
proof -
  have a: "\<not> existsSync demoHost (path_join ''/nowhere'' ''package.json'')"
    by (simp add: demoHost_def path_join_def)
  have r: "resolveAbsolutePath demoHost p = p" for p
    by (simp add: demoHost_def)
  obtain e where "InvalidProjectError e"
    and e: "\<forall>bindable. start_launch (demoHost\<lparr>portBindable := bindable\<rparr>) demoLaunched ''/nowhere''
               demoOptions (Pid 17) 0 = (Inl e, demoLaunched)"
    using start_invalid_project [of demoHost "''/nowhere''" demoLaunched demoOptions "Pid 17" 0] a
    by (auto simp add: r)
  from e have "start_launch (demoHost\<lparr>portBindable := portBindable demoHost\<rparr>) demoLaunched
      ''/nowhere'' demoOptions (Pid 17) 0 = (Inl e, demoLaunched)"
    by blast
  then have "start_launch demoHost demoLaunched ''/nowhere'' demoOptions (Pid 17) 0 = (Inl e, demoLaunched)"
    by simp
  moreover have "fst (start_launch demoHost demoLaunched ''/nowhere'' demoOptions (Pid 17) 0)
      = Inl (DirectoryDoesNotExist ''/nowhere'')"
    by (simp add: start_launch_def validateProjectPath_def Let_def demoHost_def)
  ultimately show ?thesis using a by simp
qed

subsection \<open>C3: the port chosen when the caller gives none\<close>

text \<open>
  C3. Without \<^verbatim>\<open>options.port\<close>, \<^verbatim>\<open>start\<close> is to take the lowest free port of
  \<^verbatim>\<open>[defaultPort, defaultPort + 100]\<close>: port 3001 when 3000 is taken and 3001 is free. At
  that input \<^verbatim>\<open>findAvailablePort\<close> of \<^verbatim>\<open>portChecker.js\<close> does return 3001, but the method
  of the manager calls it under a name \<^verbatim>\<open>processManager.js\<close> never imports, so \<^verbatim>\<open>start\<close>
  throws a \<^verbatim>\<open>ReferenceError\<close> and spawns nothing. That is with the configuration module
  that exports \<^verbatim>\<open>app\<close>; with \<^verbatim>\<open>src/config.js\<close> the default parameter
  \<^verbatim>\<open>config.app.defaultPort\<close> throws a \<^verbatim>\<open>TypeError\<close> before any port is probed, and
  \<^verbatim>\<open>start\<close> spawns nothing either.
\<close>

theorem start_default_port_occupied:
  "portBindable demoHost 3001 \<and> \<not> portBindable demoHost 3000 \<and>
   configApp demoHost = Some \<lparr>defaultPort = 3000, startupTimeout = 60000\<rparr> \<and>
   findAvailablePort demoHost 3000 3100 = Inr 3001 \<and>
   mgr_findAvailablePort demoHost 3000 = Inl (ReferenceError ''findAvailablePort'') \<and>
   start_launch demoHost emptyWorld ''/app'' \<lparr>opt_port = None, opt_env = None\<rparr> (Pid 4242) 0
     = (Inl (ReferenceError ''findAvailablePort''), emptyWorld) \<and>
   configApp demoHostConfigJs = None \<and>
   start_launch demoHostConfigJs emptyWorld ''/app'' \<lparr>opt_port = None, opt_env = None\<rparr> (Pid 4242) 0
     = (Inl (TypeError ''defaultPort''), emptyWorld)"
  by (simp add: demoHostConfigJs_def demoHost_def findAvailablePort_def
      findAvailablePort_loop.simps isPortAvailable_def mgr_findAvailablePort_def
      mgr_findAvailablePort_default_def processManager_bindings_def start_launch_def
      validateProjectPath_def path_join_def resolvePort_def Let_def)

subsection \<open>C2: the readiness race settles once\<close>

text \<open>
  C2 (as the code has it). For every start attempt the promise that \<^verbatim>\<open>start\<close> awaits is
  settled exactly once.
  \<^item> Once it is settled, the startup timer is cleared (or was never armed), the exit, error
    and stdout listeners are removed (or were never attached), and no later event, in any
    order, changes the outcome.
  \<^item> While it is pending, the first stdout chunk with a marker or the first port-occupation
    event resolves it, and the first exit (of a child that was spawned), error, port-wait
    timeout, port-wait error or startup-timer event rejects it.
  \<^item> With a configuration that has \<^verbatim>\<open>app\<close> the attempt starts pending, with the poller of
    \<^verbatim>\<open>waitForPort\<close> running; with \<^verbatim>\<open>src/config.js\<close> it is rejected with a \<^verbatim>\<open>TypeError\<close>
    when the race is set up, and no poller exists.
  \<^item> The poller is not among the things a settlement deactivates: no event other than its
    own three changes whether it runs, so it runs until it emits, which stops it.
\<close>

theorem readiness_settles_once:
  assumes "start_launch hst w projectPath opts newPid now = (Inr h, w0)"
  shows "(c_ready (children (run w0 es) ! h) \<noteq> Pending \<longrightarrow>
            c_timeout (children (run w0 es) ! h) = None \<and> \<not> c_exitL (children (run w0 es) ! h) \<and>
            \<not> c_errorL (children (run w0 es) ! h) \<and> \<not> c_stdoutL (children (run w0 es) ! h) \<and>
            (\<forall>later. c_ready (children (run w0 (es @ later)) ! h)
                       = c_ready (children (run w0 es) ! h))) \<and>
         (c_ready (children (run w0 es) ! h) = Pending \<and> \<not> crashed (run w0 es) \<longrightarrow>
            (\<forall>output. c_ready (children (step (run w0 es) (StdoutData h output)) ! h)
                = (if isReadyOutput (c_port (children w0 ! h)) output then Ready else Pending)) \<and>
            c_ready (children (step (run w0 es) (PortListening h)) ! h) = Ready \<and>
            (newPid \<noteq> Undefined \<longrightarrow>
               c_ready (children (step (run w0 es) (ChildExit h code)) ! h) = Failed (ExitCode code)) \<and>
            c_ready (children (step (run w0 es) (ChildError h)) ! h) = Failed ChildErrored \<and>
            (\<forall>app. configApp hst = Some app \<longrightarrow>
               c_ready (children (step (run w0 es) (StartupTimer h)) ! h)
                 = Failed (StartupTimedOut (startupTimeout app))) \<and>
            c_ready (children (step (run w0 es) (PortTimeout h)) ! h)
                = Failed (PortWaitTimedOut (c_port (children w0 ! h))) \<and>
            c_ready (children (step (run w0 es) (PortError h)) ! h) = Failed PortCheckErrored) \<and>
         (configApp hst \<noteq> None \<longrightarrow>
            c_ready (children w0 ! h) = Pending \<and> c_poller (children w0 ! h)) \<and>
         (configApp hst = None \<longrightarrow>
            c_ready (children w0 ! h) = Failed (TypeError ''startupTimeout'') \<and>
            \<not> c_poller (children w0 ! h)) \<and>
         ((\<forall>e \<in> set es. \<not> portSignal h e) \<longrightarrow>
            c_poller (children (run w0 es) ! h) = c_poller (children w0 ! h)) \<and>
         (\<forall>e. portSignal h e \<and> \<not> crashed (run w0 es) \<longrightarrow>
            \<not> c_poller (children (step (run w0 es) e) ! h))"
proof -
  let ?w1 = "run w0 es"
  have inv: "race_inv (children ?w1 ! h)"
    using assms by (intro race_inv_run start_launch_race)
  have h: "h < length (children ?w1)"
    using start_launch_shape(1,2) [OF assms] by simp
  have settled: "c_timeout (children ?w1 ! h) = None \<and> \<not> c_exitL (children ?w1 ! h) \<and>
      \<not> c_errorL (children ?w1 ! h) \<and> \<not> c_stdoutL (children ?w1 ! h) \<and>
      (\<forall>later. c_ready (children (run w0 (es @ later)) ! h) = c_ready (children ?w1 ! h))"
    if "c_ready (children ?w1 ! h) \<noteq> Pending"
    using that inv settled_run [OF that] by (simp add: race_inv_def run_append)
  have pending: "(\<forall>output. c_ready (children (step ?w1 (StdoutData h output)) ! h)
          = (if isReadyOutput (c_port (children w0 ! h)) output then Ready else Pending)) \<and>
      c_ready (children (step ?w1 (PortListening h)) ! h) = Ready \<and>
      c_ready (children (step ?w1 (ChildError h)) ! h) = Failed ChildErrored \<and>
      c_ready (children (step ?w1 (PortTimeout h)) ! h)
          = Failed (PortWaitTimedOut (c_port (children w0 ! h))) \<and>
      c_ready (children (step ?w1 (PortError h)) ! h) = Failed PortCheckErrored"
    if "c_ready (children ?w1 ! h) = Pending" "\<not> crashed ?w1"
    using pending_signals(1,2,3,5,7,8) [OF inv that(1) h that(2)] by simp
  have exit: "c_ready (children (step ?w1 (ChildExit h code)) ! h) = Failed (ExitCode code)"
    if "c_ready (children ?w1 ! h) = Pending" "\<not> crashed ?w1" "newPid \<noteq> Undefined"
  proof -
    have "spawned (children w0 ! h)"
      using start_launch_child(4) [OF assms] that(3)
      by (cases newPid) (simp_all add: spawned_def)
    then have "spawned (children ?w1 ! h)"
      by (rule spawned_run)
    then show ?thesis
      using pending_signals(4) [OF inv that(1) h that(2)] by simp
  qed
  have timer: "c_ready (children (step ?w1 (StartupTimer h)) ! h)
        = Failed (StartupTimedOut (startupTimeout app))"
    if "c_ready (children ?w1 ! h) = Pending" "\<not> crashed ?w1" "configApp hst = Some app" for app
  proof -
    have "c_timeout (children ?w1 ! h) \<noteq> None"
      using inv that(1) by (simp add: race_inv_def)
    then have "c_timeout (children ?w1 ! h) = Some (startupTimeout app)"
      using timeout_run [of w0 es h] start_launch_armed(2) [OF assms that(3)] by auto
    then show ?thesis
      by (rule pending_signals(6) [OF inv that(1) h that(2)])
  qed
  have armed: "c_ready (children w0 ! h) = Pending \<and> c_poller (children w0 ! h)"
    if "configApp hst \<noteq> None"
    using that start_launch_armed(1,3) [OF assms] by auto
  have unarmed: "c_ready (children w0 ! h) = Failed (TypeError ''startupTimeout'') \<and>
      \<not> c_poller (children w0 ! h)"
    if "configApp hst = None"
    using that start_launch_unarmed [OF assms] by simp
  have keeps: "c_poller (children ?w1 ! h) = c_poller (children w0 ! h)"
    if "\<forall>e \<in> set es. \<not> portSignal h e"
    using that by (rule poller_run)
  have emits: "\<not> c_poller (children (step ?w1 e) ! h)" if "portSignal h e" "\<not> crashed ?w1" for e
    using h that(2,1) by (rule poller_emits)
  show ?thesis
    using settled pending exit timer armed unarmed keeps emits by blast
qed

theorem readiness_settles_once_witness:
  "start_launch demoHost emptyWorld ''/app'' demoOptions (Pid 4242) 0 = (Inr 0, demoLaunched) \<and>
   configApp demoHost = Some \<lparr>defaultPort = 3000, startupTimeout = 60000\<rparr> \<and>
   c_ready (children (run demoLaunched []) ! 0) = Pending \<and>
   \<not> crashed (run demoLaunched []) \<and>
   c_poller (children demoLaunched ! 0) \<and>
   c_ready (children (step (run demoLaunched []) (PortListening 0)) ! 0) = Ready \<and>
   c_ready (children (step (run demoLaunched []) (ChildExit 0 (Some 1))) ! 0)
     = Failed (ExitCode (Some 1)) \<and>
   c_ready (children (step (run demoLaunched []) (StartupTimer 0)) ! 0)
     = Failed (StartupTimedOut 60000) \<and>
   c_ready (children (run demoLaunched demoMarker) ! 0) = Ready \<and>
   c_timeout (children (run demoLaunched demoMarker) ! 0) = None \<and>
   c_ready (children (run demoLaunched (demoMarker @ [PortListening 0, ChildExit 0 (Some 1)])) ! 0)
     = Ready \<and>
   \<not> portSignal 0 (StdoutData 0 ''  Compiled successfully!'') \<and>
   c_poller (children (run demoLaunched demoMarker) ! 0) \<and>
   portSignal 0 (PortListening 0) \<and> \<not> crashed (run demoLaunched demoMarker) \<and>
   \<not> c_poller (children (step (run demoLaunched demoMarker) (PortListening 0)) ! 0) \<and>
   start_launch demoHostConfigJs emptyWorld ''/app'' demoOptions (Pid 4242) 0 = (Inr 0, demoUnarmed) \<and>
   configApp demoHostConfigJs = None \<and>
   c_ready (children demoUnarmed ! 0) = Failed (TypeError ''startupTimeout'') \<and>
   c_ready (children (run demoUnarmed [PortListening 0, ChildExit 0 (Some 1)]) ! 0)
     = Failed (TypeError ''startupTimeout'')"
proof -
  have cfg: "configApp demoHost = Some \<lparr>defaultPort = 3000, startupTimeout = 60000\<rparr>"
    "configApp demoHostConfigJs = None"
    by (simp_all add: demoHostConfigJs_def demoHost_def)
  have p: "c_ready (children (run demoLaunched []) ! 0) = Pending \<and> \<not> crashed (run demoLaunched [])"
    by (simp add: demoLaunched_eq)
  have r: "c_ready (children (run demoLaunched demoMarker) ! 0) = Ready"
    by (simp add: demo_marker_state)
  have q: "\<forall>e \<in> set demoMarker. \<not> portSignal 0 e"
    "\<not> portSignal 0 (StdoutData 0 ''  Compiled successfully!'')" "portSignal 0 (PortListening 0)"
    by (simp_all add: demoMarker_def portSignal_def)
  have c: "\<not> crashed (run demoLaunched demoMarker)"
    by (simp add: demoMarker_def demoLaunched_eq step_def upd_child_def)
  have u: "c_ready (children (run demoUnarmed []) ! 0) \<noteq> Pending"
    by (simp add: demoUnarmed_eq)
  note armed = readiness_settles_once [OF demo_launch]
  note unarmed = readiness_settles_once [OF demo_launch_unarmed]
  have a1: "c_ready (children (step (run demoLaunched []) (PortListening 0)) ! 0) = Ready"
    "c_ready (children (step (run demoLaunched []) (ChildExit 0 (Some 1))) ! 0)
       = Failed (ExitCode (Some 1))"
    "c_ready (children (step (run demoLaunched []) (StartupTimer 0)) ! 0)
       = Failed (StartupTimedOut 60000)"
    "c_poller (children demoLaunched ! 0)"
    using armed [where es = "[]" and code = "Some 1"] p cfg(1) by simp_all
  have a2: "c_timeout (children (run demoLaunched demoMarker) ! 0) = None"
    "c_ready (children (run demoLaunched (demoMarker @ [PortListening 0, ChildExit 0 (Some 1)])) ! 0)
       = Ready"
    using armed [where es = demoMarker] r by simp_all
  have a3: "c_poller (children (run demoLaunched demoMarker) ! 0)"
    using armed [where es = demoMarker] q(1) a1(4) by blast
  have a4: "\<not> c_poller (children (step (run demoLaunched demoMarker) (PortListening 0)) ! 0)"
    using armed [where es = demoMarker] q(3) c by blast
  have u1: "c_ready (children demoUnarmed ! 0) = Failed (TypeError ''startupTimeout'')"
    using unarmed [where es = "[]"] cfg(2) by simp
  have "c_ready (children (run demoUnarmed ([] @ [PortListening 0, ChildExit 0 (Some 1)])) ! 0)
      = c_ready (children (run demoUnarmed []) ! 0)"
    using unarmed [where es = "[]"] u by blast
  with u1 have u2: "c_ready (children (run demoUnarmed [PortListening 0, ChildExit 0 (Some 1)]) ! 0)
      = Failed (TypeError ''startupTimeout'')"
    by simp
  show ?thesis
    using demo_launch demo_launch_unarmed cfg p r q(2,3) c a1 a2 a3 a4 u1 u2 by simp
qed

text \<open>
  The poller of \<^verbatim>\<open>waitForPort\<close> is not among the things \<^verbatim>\<open>cleanup\<close> deactivates: after a
  stdout marker has settled the attempt it is still polling, with its listeners attached.
\<close>

theorem poller_survives_settlement:
  "c_ready (children (run demoLaunched demoMarker) ! 0) = Ready \<and>
   c_poller (children (run demoLaunched demoMarker) ! 0)"
  by (simp add: demo_marker_state)

subsection \<open>C7: the child exits before it is ready\<close>

text \<open>
  When the readiness race was set up and is still pending (no marker, no port signal, no
  timer has settled it), the exit of the child fails \<^verbatim>\<open>start\<close> with the exit code as its
  error, at the exit event itself: the startup timer was still armed and is cleared by that
  event. This holds for every exit code, the non-zero ones among them. A pending race
  was set up with a configuration that has \<^verbatim>\<open>app\<close>.
\<close>

lemma early_exit_when_armed:
  assumes "start_launch hst w projectPath opts (Pid n) now = (Inr h, w0)"
    and "c_ready (children (run w0 es) ! h) = Pending"
    and "\<not> crashed (run w0 es)"
  shows "c_timeout (children (run w0 es) ! h) \<noteq> None"
    and "c_ready (children (step (run w0 es) (ChildExit h code)) ! h) = Failed (ExitCode code)"
    and "c_timeout (children (step (run w0 es) (ChildExit h code)) ! h) = None"
    and "pi_process info = h \<Longrightarrow>
         start_result (step (run w0 es) (ChildExit h code)) info = Some (Inl (ExitCode code))"
    and "configApp hst \<noteq> None"
proof -
  let ?w1 = "run w0 es"
  have inv: "race_inv (children ?w1 ! h)"
    using assms(1) by (intro race_inv_run start_launch_race)
  have h: "h < length (children ?w1)"
    using start_launch_shape(1,2) [OF assms(1)] by simp
  have "spawned (children w0 ! h)"
    using start_launch_child(4) [OF assms(1)] by (simp add: spawned_def)
  then have sp: "spawned (children ?w1 ! h)"
    by (rule spawned_run)
  show "c_timeout (children ?w1 ! h) \<noteq> None"
    using inv assms(2) by (simp add: race_inv_def)
  show failed: "c_ready (children (step ?w1 (ChildExit h code)) ! h) = Failed (ExitCode code)"
    using pending_signals(4) [OF inv assms(2) h assms(3) sp] .
  have "race_inv (children (step ?w1 (ChildExit h code)) ! h)"
    using inv by (rule race_inv_step)
  with failed show "c_timeout (children (step ?w1 (ChildExit h code)) ! h) = None"
    by (simp add: race_inv_def)
  show "start_result (step ?w1 (ChildExit h code)) info = Some (Inl (ExitCode code))"
    if "pi_process info = h"
    using failed that by (simp add: start_result_def)
  show "configApp hst \<noteq> None"
  proof
    assume "configApp hst = None"
    then have "c_ready (children w0 ! h) \<noteq> Pending"
      using start_launch_unarmed(1) [OF assms(1)] by simp
    then have "c_ready (children ?w1 ! h) = c_ready (children w0 ! h)"
      by (rule settled_run)
    with \<open>c_ready (children w0 ! h) \<noteq> Pending\<close> assms(2) show False
      by simp
  qed
qed

text \<open>
  C7. If the child exits with a non-zero code before any readiness signal, \<^verbatim>\<open>start\<close> is to
  fail with that exit code as soon as the exit is observed. With \<^verbatim>\<open>src/config.js\<close> as the
  configuration it does not: for \<^verbatim>\<open>start('/app', {port: 5173})\<close> the child is spawned and
  running, but reading \<^verbatim>\<open>config.app.startupTimeout\<close> throws inside the executor of the
  readiness promise, before \<^verbatim>\<open>child.on('exit', onError)\<close> is reached. The promise is rejected
  with the \<^verbatim>\<open>TypeError\<close>, no exit listener is attached, and when the child then exits with
  code 1 the error of \<^verbatim>\<open>start\<close> is still the \<^verbatim>\<open>TypeError\<close>, not the exit code. With the
  configuration module that exports \<^verbatim>\<open>app\<close> the same call and the same exit give the exit
  code.
\<close>

theorem early_exit_under_config_js:
  "configApp demoHostConfigJs = None \<and>
   start_launch demoHostConfigJs emptyWorld ''/app'' demoOptions (Pid 4242) 0 = (Inr 0, demoUnarmed) \<and>
   c_phase (children demoUnarmed ! 0) = Running \<and>
   \<not> c_exitL (children demoUnarmed ! 0) \<and>
   c_ready (children demoUnarmed ! 0) = Failed (TypeError ''startupTimeout'') \<and>
   c_phase (children (run demoUnarmed [ChildExit 0 (Some 1)]) ! 0) = Exited \<and>
   start_result (run demoUnarmed [ChildExit 0 (Some 1)])
     \<lparr>pi_id = Pid 4242, pi_port = 5173, pi_projectPath = ''/app'', pi_startTime = 0, pi_process = 0\<rparr>
     = Some (Inl (TypeError ''startupTimeout'')) \<and>
   start_result (run demoLaunched [ChildExit 0 (Some 1)])
     \<lparr>pi_id = Pid 4242, pi_port = 5173, pi_projectPath = ''/app'', pi_startTime = 0, pi_process = 0\<rparr>
     = Some (Inl (ExitCode (Some 1)))"
proof -
  have a: "configApp demoHostConfigJs = None"
    by (simp add: demoHostConfigJs_def)
  have b: "c_phase (children demoUnarmed ! 0) = Running \<and> \<not> c_exitL (children demoUnarmed ! 0) \<and>
      c_ready (children demoUnarmed ! 0) = Failed (TypeError ''startupTimeout'')"
    by (simp add: demoUnarmed_eq)
  have c: "run demoUnarmed [ChildExit 0 (Some 1)] = step demoUnarmed (ChildExit 0 (Some 1))"
    "run demoLaunched [ChildExit 0 (Some 1)] = step demoLaunched (ChildExit 0 (Some 1))"
    by simp_all
  show ?thesis
    using a b demo_launch_unarmed
    by (simp only: c demo_unarmed_exit_state demo_exit_before_ready_state)
      (simp add: start_result_def)
qed

subsection \<open>C1: what a failed start leaves behind\<close>

text \<open>
  C1 (as the code has it). A start attempt that fails surfaces its error without sending a
  signal to the child and without removing the registry entry made at spawn. Let the
  attempt spawn child \<open>h\<close> with id \<open>newPid\<close> in a state where no child that has not
  closed carries that id and every pending escalation timer belongs to a child that exists.
  Then, whatever events follow, as long as the \<^verbatim>\<open>'close'\<close> event of \<open>h\<close> is not among them:
  \<^item> the registry maps the attempted id to the child;
  \<^item> no signal was sent to the child;
  \<^item> the child is running, unless the spawn failed or its own exit event was among the
    events;
  \<^item> once the child has exited, or its spawn has failed and its \<^verbatim>\<open>'error'\<close> was emitted, its
    \<^verbatim>\<open>'close'\<close> event removes the id from the registry;
  \<^item> with \<^verbatim>\<open>src/config.js\<close> as the configuration the attempt has failed, with a
    \<^verbatim>\<open>TypeError\<close>, from the moment the race was to be set up.
\<close>

theorem failed_start_leaves_child:
  assumes "start_launch hst w projectPath opts newPid now = (Inr h, w0)"
    and "unshared w newPid"
    and "timersBound w"
    and "ChildClose h \<notin> set es"
  shows "(\<exists>info. map_of (processes (run w0 es)) newPid = Some info \<and> pi_process info = h) \<and>
         c_signals (children (run w0 es) ! h) = [] \<and>
         (newPid \<noteq> Undefined \<and> (\<forall>code. ChildExit h code \<notin> set es) \<longrightarrow>
            c_phase (children (run w0 es) ! h) = Running) \<and>
         (closePossible (c_phase (children (run w0 es) ! h)) \<and> \<not> crashed (run w0 es) \<longrightarrow>
            map_of (processes (step (run w0 es) (ChildClose h))) newPid = None) \<and>
         (configApp hst = None \<longrightarrow>
            c_ready (children (run w0 es) ! h) = Failed (TypeError ''startupTimeout''))"
proof -
  let ?w1 = "run w0 es"
  have h: "h < length (children ?w1)"
    using start_launch_shape(1,2) [OF assms(1)] by simp
  have pid: "c_pid (children ?w1 ! h) = newPid"
    using start_launch_child(1) [OF assms(1)] by simp
  have "c_phase (children w0 ! h) \<noteq> Closed"
    using start_launch_child(4) [OF assms(1)] by (simp split: pid.splits)
  with assms(4) have open_: "c_phase (children ?w1 ! h) \<noteq> Closed"
    by (rule not_closed_run)
  have "owns w0 newPid h"
    using assms(1,2) by (rule unshared_launch)
  then have "map_of (processes ?w1) newPid = map_of (processes w0) newPid"
    using open_ by (rule entry_while_open)
  then have entry: "\<exists>info. map_of (processes ?w1) newPid = Some info \<and> pi_process info = h"
    using start_launch_entry [OF assms(1)] by auto
  have "\<forall>p. (p, h, escalationDelay) \<notin> set (stopTimers w0)"
    using assms(1,3) by (rule timersBound_launch)
  then have "c_signals (children ?w1 ! h) = c_signals (children w0 ! h)"
    by (rule signals_run_untimed)
  then have nokill: "c_signals (children ?w1 ! h) = []"
    using start_launch_child(2) [OF assms(1)] by simp
  have running: "c_phase (children ?w1 ! h) = Running"
    if "newPid \<noteq> Undefined" "\<forall>code. ChildExit h code \<notin> set es"
  proof -
    have "c_phase (children w0 ! h) = Running"
      using start_launch_child(4) [OF assms(1)] that(1) by (cases newPid) simp_all
    with that(2) show ?thesis
      by (rule phase_no_exit_run)
  qed
  have closed: "map_of (processes (step ?w1 (ChildClose h))) newPid = None"
    if "closePossible (c_phase (children ?w1 ! h))" "\<not> crashed ?w1"
    using close_removes_pid [OF h that] pid by simp
  have failed: "c_ready (children ?w1 ! h) = Failed (TypeError ''startupTimeout'')"
    if "configApp hst = None"
  proof -
    have f: "c_ready (children w0 ! h) = Failed (TypeError ''startupTimeout'')"
      using assms(1) that by (rule start_launch_unarmed(1))
    then have "c_ready (children w0 ! h) \<noteq> Pending"
      by simp
    then have "c_ready (children ?w1 ! h) = c_ready (children w0 ! h)"
      by (rule settled_run)
    with f show ?thesis
      by simp
  qed
  show ?thesis
    using entry nokill running closed failed by (intro conjI impI) simp_all
qed

theorem failed_start_leaves_child_witness:
  "start_launch demoHost emptyWorld ''/app'' demoOptions (Pid 4242) 0 = (Inr 0, demoLaunched) \<and>
   unshared emptyWorld (Pid 4242) \<and> timersBound emptyWorld \<and>
   ChildClose 0 \<notin> set [ChildExit 0 (Some 1)] \<and>
   c_ready (children (run demoLaunched [ChildExit 0 (Some 1)]) ! 0) = Failed (ExitCode (Some 1)) \<and>
   map_of (processes (run demoLaunched [ChildExit 0 (Some 1)])) (Pid 4242)
     = Some \<lparr>pi_id = Pid 4242, pi_port = 5173, pi_projectPath = ''/app'', pi_startTime = 0,
             pi_process = 0\<rparr> \<and>
   c_signals (children (run demoLaunched [ChildExit 0 (Some 1)]) ! 0) = [] \<and>
   closePossible (c_phase (children (run demoLaunched [ChildExit 0 (Some 1)]) ! 0)) \<and>
   \<not> crashed (run demoLaunched [ChildExit 0 (Some 1)]) \<and>
   map_of (processes (step (run demoLaunched [ChildExit 0 (Some 1)]) (ChildClose 0))) (Pid 4242) = None \<and>
   ChildClose 0 \<notin> set [StartupTimer 0] \<and>
   c_phase (children (run demoLaunched [StartupTimer 0]) ! 0) = Running \<and>
   start_launch demoHost emptyWorld ''/app'' demoOptions Undefined 0 = (Inr 0, demoFailedSpawn) \<and>
   unshared emptyWorld Undefined \<and>
   ChildClose 0 \<notin> set [ChildError 0] \<and>
   c_ready (children (run demoFailedSpawn [ChildError 0]) ! 0) = Failed ChildErrored \<and>
   c_signals (children (run demoFailedSpawn [ChildError 0]) ! 0) = [] \<and>
   closePossible (c_phase (children (run demoFailedSpawn [ChildError 0]) ! 0)) \<and>
   \<not> crashed (run demoFailedSpawn [ChildError 0]) \<and>
   map_of (processes (step (run demoFailedSpawn [ChildError 0]) (ChildClose 0))) Undefined = None \<and>
   start_launch demoHostConfigJs emptyWorld ''/app'' demoOptions (Pid 4242) 0 = (Inr 0, demoUnarmed) \<and>
   configApp demoHostConfigJs = None \<and>
   c_ready (children (run demoUnarmed [StdoutData 0 ''ready'']) ! 0)
     = Failed (TypeError ''startupTimeout'') \<and>
   c_phase (children (run demoUnarmed [StdoutData 0 ''ready'']) ! 0) = Running"
proof -
  have u: "unshared emptyWorld (Pid 4242)" "unshared emptyWorld Undefined"
    by (simp_all add: unshared_def emptyWorld_def)
  have e: "ChildClose 0 \<notin> set [ChildExit 0 (Some 1)]" "ChildClose 0 \<notin> set [StartupTimer 0]"
    "ChildClose 0 \<notin> set [ChildError 0]" "ChildClose 0 \<notin> set [StdoutData 0 ''ready'']"
    by simp_all
  have cfg: "configApp demoHostConfigJs = None"
    by (simp add: demoHostConfigJs_def)
  have x: "c_ready (children (run demoLaunched [ChildExit 0 (Some 1)]) ! 0) = Failed (ExitCode (Some 1)) \<and>
      map_of (processes (run demoLaunched [ChildExit 0 (Some 1)])) (Pid 4242)
        = Some \<lparr>pi_id = Pid 4242, pi_port = 5173, pi_projectPath = ''/app'', pi_startTime = 0,
                pi_process = 0\<rparr> \<and>
      closePossible (c_phase (children (run demoLaunched [ChildExit 0 (Some 1)]) ! 0)) \<and>
      \<not> crashed (run demoLaunched [ChildExit 0 (Some 1)])"
    by (simp add: demo_exit_before_ready_state phase_defs)
  have y: "c_ready (children (run demoFailedSpawn [ChildError 0]) ! 0) = Failed ChildErrored \<and>
      closePossible (c_phase (children (run demoFailedSpawn [ChildError 0]) ! 0)) \<and>
      \<not> crashed (run demoFailedSpawn [ChildError 0])"
    by (simp add: demo_spawn_error_state phase_defs)
  note exit = failed_start_leaves_child [OF demo_launch u(1) timersBound_emptyWorld e(1)]
  note timer = failed_start_leaves_child [OF demo_launch u(1) timersBound_emptyWorld e(2)]
  note spawn = failed_start_leaves_child [OF demo_launch_failed_spawn u(2) timersBound_emptyWorld e(3)]
  note cfgjs = failed_start_leaves_child [OF demo_launch_unarmed u(1) timersBound_emptyWorld e(4)]
  have a: "c_signals (children (run demoLaunched [ChildExit 0 (Some 1)]) ! 0) = []"
    "map_of (processes (step (run demoLaunched [ChildExit 0 (Some 1)]) (ChildClose 0))) (Pid 4242) = None"
    using exit x by blast+
  have b: "c_phase (children (run demoLaunched [StartupTimer 0]) ! 0) = Running"
    using timer by simp
  have c: "c_signals (children (run demoFailedSpawn [ChildError 0]) ! 0) = []"
    "map_of (processes (step (run demoFailedSpawn [ChildError 0]) (ChildClose 0))) Undefined = None"
    using spawn y by blast+
  have d: "c_ready (children (run demoUnarmed [StdoutData 0 ''ready'']) ! 0)
        = Failed (TypeError ''startupTimeout'')"
    "c_phase (children (run demoUnarmed [StdoutData 0 ''ready'']) ! 0) = Running"
    using cfgjs cfg by simp_all
  show ?thesis
    using demo_launch demo_launch_failed_spawn demo_launch_unarmed u timersBound_emptyWorld e(1,2,3)
      cfg x y a b c d
    by simp
qed

text \<open>
  After the startup timer has fired, \<^verbatim>\<open>start\<close> has failed, the attempted id is still in
  the registry, the child is still running and no signal was sent to it. The same holds
  with \<^verbatim>\<open>src/config.js\<close>, where \<^verbatim>\<open>start\<close> has failed with the \<^verbatim>\<open>TypeError\<close>.
\<close>

theorem timed_out_start_leaves_child_running:
  "c_ready (children (run demoLaunched [StartupTimer 0]) ! 0) = Failed (StartupTimedOut 60000) \<and>
   start_result (run demoLaunched [StartupTimer 0])
     \<lparr>pi_id = Pid 4242, pi_port = 5173, pi_projectPath = ''/app'', pi_startTime = 0, pi_process = 0\<rparr>
     = Some (Inl (StartupTimedOut 60000)) \<and>
   has (run demoLaunched [StartupTimer 0]) (Pid 4242) \<and>
   c_phase (children (run demoLaunched [StartupTimer 0]) ! 0) = Running \<and>
   c_signals (children (run demoLaunched [StartupTimer 0]) ! 0) = [] \<and>
   start_result demoUnarmed
     \<lparr>pi_id = Pid 4242, pi_port = 5173, pi_projectPath = ''/app'', pi_startTime = 0, pi_process = 0\<rparr>
     = Some (Inl (TypeError ''startupTimeout'')) \<and>
   has demoUnarmed (Pid 4242) \<and>
   c_phase (children demoUnarmed ! 0) = Running \<and>
   c_signals (children demoUnarmed ! 0) = []"
  by (simp add: demo_timeout_state demoUnarmed_eq start_result_def has_def)

subsection \<open>C4: stop resolves at the close event\<close>

text \<open>
  C4. In a state of the supervisor, \<^verbatim>\<open>stop(id)\<close> on an id that is not in the registry
  throws the not-found error and changes nothing. On an id that is in the registry it
  returns a promise that is not resolved by the call itself; whatever events follow, the
  promise is resolved only when the child has emitted \<^verbatim>\<open>'close'\<close> (so its exit event was
  among the events, if it was running at the call), and then \<^verbatim>\<open>getProcessInfo(id)\<close> throws
  the not-found error; and once the child has emitted \<^verbatim>\<open>'close'\<close> the promise is resolved.
\<close>

theorem stop_resolves_after_close:
  assumes "wf w"
  shows "(\<not> has w p \<longrightarrow> stop w p = (Inl (NoProcessFound p), w) \<and> NotFoundError (NoProcessFound p)) \<and>
         (has w p \<longrightarrow>
            (\<exists>pr. fst (stop w p) = Inr pr \<and> \<not> stopResolved (snd (stop w p)) pr \<and>
               (\<forall>es. stopResolved (run (snd (stop w p)) es) pr \<longrightarrow>
                  c_phase (children (run (snd (stop w p)) es) ! fst pr) = Closed \<and>
                  (c_phase (children w ! fst pr) = Running \<longrightarrow> (\<exists>code. ChildExit (fst pr) code \<in> set es)) \<and>
                  getProcessInfo (run (snd (stop w p)) es) p = Inl (NoProcessFound p)) \<and>
               (\<forall>es. c_phase (children (run (snd (stop w p)) es) ! fst pr) = Closed \<longrightarrow>
                  stopResolved (run (snd (stop w p)) es) pr)))"
proof (intro conjI impI)
  assume "\<not> has w p"
  then show "stop w p = (Inl (NoProcessFound p), w)"
    by (simp add: has_def stop_untracked)
  show "NotFoundError (NoProcessFound p)"
    by (simp add: NotFoundError_def)
next
  let ?w' = "snd (stop w p)"
  assume "has w p"
  then obtain info where info: "map_of (processes w) p = Some info"
    by (auto simp add: has_def)
  then have mem: "(p, info) \<in> set (processes w)"
    by (rule map_of_SomeD)
  with assms have h: "pi_process info < length (children w)"
    and open_: "c_phase (children w ! pi_process info) \<noteq> Closed"
    by (auto simp add: wf_def)
  from stop_establishes [OF info h] open_ obtain k
    where r: "fst (stop w p) = Inr (pi_process info, k)"
      and safe: "stop_safe p (pi_process info, k) ?w'"
      and fresh: "\<not> stopResolved ?w' (pi_process info, k)"
      and live: "stop_live (pi_process info, k) ?w'"
    by blast
  have k: "snd (pi_process info, k) < length (c_stopWaits (children ?w' ! fst (pi_process info, k)))"
    using safe by (simp add: stop_safe_def)
  have only_after: "c_phase (children (run ?w' es) ! pi_process info) = Closed \<and>
      (c_phase (children w ! pi_process info) = Running \<longrightarrow> (\<exists>code. ChildExit (pi_process info) code \<in> set es)) \<and>
      getProcessInfo (run ?w' es) p = Inl (NoProcessFound p)"
    if res: "stopResolved (run ?w' es) (pi_process info, k)" for es
  proof -
    have s: "stop_safe p (pi_process info, k) (run ?w' es)"
      using safe by (rule stop_safe_run)
    with res have c: "c_phase (children (run ?w' es) ! pi_process info) = Closed"
      and gone: "\<not> has (run ?w' es) p"
      by (simp_all add: stop_safe_def)
    have "\<exists>code. ChildExit (pi_process info) code \<in> set es"
      if "c_phase (children w ! pi_process info) = Running"
      using exited_in_run [of ?w' "pi_process info" es] that c by simp
    moreover have "getProcessInfo (run ?w' es) p = Inl (NoProcessFound p)"
      using gone by (simp add: has_def getProcessInfo_def)
    ultimately show ?thesis
      using c by blast
  qed
  have once_closed: "stopResolved (run ?w' es) (pi_process info, k)"
    if "c_phase (children (run ?w' es) ! pi_process info) = Closed" for es
    using stop_live_run [OF live k, of es] that by (simp add: stop_live_def)
  show "\<exists>pr. fst (stop w p) = Inr pr \<and> \<not> stopResolved ?w' pr \<and>
          (\<forall>es. stopResolved (run ?w' es) pr \<longrightarrow>
             c_phase (children (run ?w' es) ! fst pr) = Closed \<and>
             (c_phase (children w ! fst pr) = Running \<longrightarrow> (\<exists>code. ChildExit (fst pr) code \<in> set es)) \<and>
             getProcessInfo (run ?w' es) p = Inl (NoProcessFound p)) \<and>
          (\<forall>es. c_phase (children (run ?w' es) ! fst pr) = Closed \<longrightarrow>
             stopResolved (run ?w' es) pr)"
    using r fresh only_after once_closed
    by (intro exI [of _ "(pi_process info, k)"]) simp
qed

theorem stop_resolves_after_close_witness:
  "wf demoReady \<and> has demoReady (Pid 4242) \<and> \<not> has demoReady (Pid 7) \<and>
   stop demoReady (Pid 7) = (Inl (NoProcessFound (Pid 7)), demoReady) \<and>
   stop demoReady (Pid 4242) = (Inr (0, 0), demoStopping) \<and>
   \<not> stopResolved (run demoStopping [ChildExit 0 None]) (0, 0) \<and>
   stopResolved (run demoStopping [ChildExit 0 None, ChildClose 0]) (0, 0) \<and>
   c_phase (children (run demoStopping [ChildExit 0 None, ChildClose 0]) ! 0) = Closed \<and>
   getProcessInfo (run demoStopping [ChildExit 0 None, ChildClose 0]) (Pid 4242)
     = Inl (NoProcessFound (Pid 4242))"
proof -
  have tracked: "has demoReady (Pid 4242)" and untracked: "\<not> has demoReady (Pid 7)"
    by (simp_all add: has_def demoReady_eq)
  have before: "\<not> stopResolved (run demoStopping [ChildExit 0 None]) (0, 0)"
    by (simp add: demo_exit_state stopResolved_def)
  have after: "stopResolved (run demoStopping [ChildExit 0 None, ChildClose 0]) (0, 0)"
    by (simp only: demo_stopped_run) (simp add: demoStopped_eq stopResolved_def)
  have pr: "fst (stop demoReady (Pid 4242)) = Inr (0, 0)" and w': "snd (stop demoReady (Pid 4242)) = demoStopping"
    by (simp_all add: demo_stop)
  from stop_resolves_after_close [OF wf_demoReady, of "Pid 7"] untracked
  have a: "stop demoReady (Pid 7) = (Inl (NoProcessFound (Pid 7)), demoReady)"
    by simp
  from stop_resolves_after_close [OF wf_demoReady, of "Pid 4242"] tracked pr w'
  have "\<forall>es. stopResolved (run demoStopping es) (0, 0) \<longrightarrow>
          c_phase (children (run demoStopping es) ! 0) = Closed \<and>
          getProcessInfo (run demoStopping es) (Pid 4242) = Inl (NoProcessFound (Pid 4242))"
    by auto
  with after have b: "c_phase (children (run demoStopping [ChildExit 0 None, ChildClose 0]) ! 0) = Closed \<and>
      getProcessInfo (run demoStopping [ChildExit 0 None, ChildClose 0]) (Pid 4242) = Inl (NoProcessFound (Pid 4242))"
    by blast
  show ?thesis
    using wf_demoReady tracked untracked a demo_stop before after b by simp
qed

subsection \<open>C5: the escalation timer of stop\<close>

text \<open>
  C5 (as the code has it). \<^verbatim>\<open>stop(id)\<close> on a tracked id calls \<^verbatim>\<open>kill('SIGTERM')\<close>, which
  sends the signal if the process has not exited, and arms a one-shot timer of 5000 ms.
  The timer stays armed until it fires, whatever happens meanwhile. When it fires it is
  removed, and \<^verbatim>\<open>SIGKILL\<close> is sent if and only if the id is in the registry at that moment
  and the process has not exited. If no other child that has not closed carries the id,
  the id of a process that has not exited is in the registry, so \<^verbatim>\<open>SIGKILL\<close> is then sent
  if and only if the process has not exited. No event other than an escalation timer sends
  a signal.
\<close>

theorem stop_escalation:
  assumes "map_of (processes w) p = Some info" and "pi_process info < length (children w)"
    and "stop w p = (r, w')"
  shows "(\<exists>k. r = Inr (pi_process info, k)) \<and>
         c_signals (children w' ! pi_process info)
           = c_signals (children w ! pi_process info)
               @ (if c_phase (children w ! pi_process info) = Running then [SIGTERM] else []) \<and>
         stopTimers w' = stopTimers w @ [(p, pi_process info, 5000)] \<and>
         (\<forall>es. EscalationTimer p (pi_process info) \<notin> set es \<longrightarrow>
            (p, pi_process info, 5000) \<in> set (stopTimers (run w' es))) \<and>
         (\<forall>es. (p, pi_process info, 5000) \<in> set (stopTimers (run w' es)) \<and> \<not> crashed (run w' es) \<longrightarrow>
            c_signals (children (step (run w' es) (EscalationTimer p (pi_process info))) ! pi_process info)
              = c_signals (children (run w' es) ! pi_process info)
                  @ (if has (run w' es) p \<and> c_phase (children (run w' es) ! pi_process info) = Running
                     then [SIGKILL] else []) \<and>
            stopTimers (step (run w' es) (EscalationTimer p (pi_process info)))
              = remove1 (p, pi_process info, 5000) (stopTimers (run w' es))) \<and>
         (owns w p (pi_process info) \<longrightarrow>
            (\<forall>es. (p, pi_process info, 5000) \<in> set (stopTimers (run w' es)) \<and> \<not> crashed (run w' es) \<longrightarrow>
               c_signals (children (step (run w' es) (EscalationTimer p (pi_process info))) ! pi_process info)
                 = c_signals (children (run w' es) ! pi_process info)
                     @ (if c_phase (children (run w' es) ! pi_process info) = Running
                        then [SIGKILL] else []))) \<and>
         (\<forall>es e. (\<forall>q g. e \<noteq> EscalationTimer q g) \<longrightarrow>
            c_signals (children (step (run w' es) e) ! pi_process info)
              = c_signals (children (run w' es) ! pi_process info))"
proof -
  let ?h = "pi_process info"
  have st: "stop w p =
     (Inr (?h, length (c_stopWaits (children w ! ?h))),
      w\<lparr>children := (children w)
           [?h := kill SIGTERM ((children w ! ?h)
              \<lparr>c_stopWaits := c_stopWaits (children w ! ?h) @ [(p, False)]\<rparr>)],
        stopTimers := stopTimers w @ [(p, ?h, escalationDelay)]\<rparr>)"
    using assms(1,2) by (rule stop_tracked)
  have w': "w' = snd (stop w p)"
    using assms(3) by simp
  have r: "\<exists>k. r = Inr (?h, k)"
    using st assms(3) by auto
  have sigterm: "c_signals (children w' ! ?h)
      = c_signals (children w ! ?h) @ (if c_phase (children w ! ?h) = Running then [SIGTERM] else [])"
    using st assms(2,3) by (auto simp add: kill_def)
  have armed: "stopTimers w' = stopTimers w @ [(p, ?h, 5000)]"
    using st assms(3) by (auto simp add: escalationDelay_def)
  have len: "?h < length (children (run w' es))" for es
    using assms(2) by (simp add: w')
  have stays: "(p, ?h, 5000) \<in> set (stopTimers (run w' es))"
    if "EscalationTimer p ?h \<notin> set es" for es
    using that armed by (intro timer_stays_run) simp_all
  have fires: "c_signals (children (step (run w' es) (EscalationTimer p ?h)) ! ?h)
        = c_signals (children (run w' es) ! ?h)
            @ (if has (run w' es) p \<and> c_phase (children (run w' es) ! ?h) = Running
               then [SIGKILL] else []) \<and>
      stopTimers (step (run w' es) (EscalationTimer p ?h))
        = remove1 (p, ?h, 5000) (stopTimers (run w' es))"
    if "(p, ?h, 5000) \<in> set (stopTimers (run w' es))" "\<not> crashed (run w' es)" for es
    using timer_fires [of p ?h "run w' es"] that len [of es] by (simp add: escalationDelay_def)
  have tracked: "has (run w' es) p"
    if "owns w p ?h" "c_phase (children (run w' es) ! ?h) = Running" for es
  proof -
    have "owns w' p ?h"
      unfolding w' using assms(1,2) that(1) by (rule owns_stop)
    moreover have "map_of (processes w') p = Some info"
      using assms(1) by (simp add: w')
    ultimately show ?thesis
      using that(2) by (rule running_is_tracked)
  qed
  have alone: "c_signals (children (step (run w' es) (EscalationTimer p ?h)) ! ?h)
        = c_signals (children (run w' es) ! ?h)
            @ (if c_phase (children (run w' es) ! ?h) = Running then [SIGKILL] else [])"
    if "owns w p ?h" "(p, ?h, 5000) \<in> set (stopTimers (run w' es))" "\<not> crashed (run w' es)" for es
    using fires [OF that(2,3)] tracked [OF that(1), of es] by auto
  show ?thesis
    using r sigterm armed stays fires alone only_timer_kills by blast
qed

theorem stop_escalation_witness:
  "map_of (processes demoReady) (Pid 4242)
     = Some \<lparr>pi_id = Pid 4242, pi_port = 5173, pi_projectPath = ''/app'', pi_startTime = 0,
             pi_process = 0\<rparr> \<and>
   stop demoReady (Pid 4242) = (Inr (0, 0), demoStopping) \<and>
   owns demoReady (Pid 4242) 0 \<and>
   c_phase (children demoReady ! 0) = Running \<and>
   c_signals (children demoStopping ! 0) = [SIGTERM] \<and>
   (Pid 4242, 0, 5000) \<in> set (stopTimers (run demoStopping [])) \<and>
   \<not> crashed (run demoStopping []) \<and> has (run demoStopping []) (Pid 4242) \<and>
   c_phase (children (run demoStopping []) ! 0) = Running \<and>
   c_signals (children (step (run demoStopping []) (EscalationTimer (Pid 4242) 0)) ! 0)
     = [SIGTERM, SIGKILL] \<and>
   (Pid 4242, 0, 5000) \<in> set (stopTimers (run demoStopping [ChildExit 0 None])) \<and>
   \<not> crashed (run demoStopping [ChildExit 0 None]) \<and>
   has (run demoStopping [ChildExit 0 None]) (Pid 4242) \<and>
   c_phase (children (run demoStopping [ChildExit 0 None]) ! 0) = Exited \<and>
   c_signals (children (step (run demoStopping [ChildExit 0 None]) (EscalationTimer (Pid 4242) 0)) ! 0)
     = [SIGTERM] \<and>
   (Pid 4242, 0, 5000) \<in> set (stopTimers (run demoStopping [ChildExit 0 None, ChildClose 0])) \<and>
   \<not> crashed (run demoStopping [ChildExit 0 None, ChildClose 0]) \<and>
   \<not> has (run demoStopping [ChildExit 0 None, ChildClose 0]) (Pid 4242) \<and>
   c_signals (children (step (run demoStopping [ChildExit 0 None, ChildClose 0])
                               (EscalationTimer (Pid 4242) 0)) ! 0) = [SIGTERM]"
proof -
  let ?info = "\<lparr>pi_id = Pid 4242, pi_port = 5173, pi_projectPath = ''/app'', pi_startTime = 0,
                 pi_process = 0\<rparr>"
  have info: "map_of (processes demoReady) (Pid 4242) = Some ?info"
    by (simp add: demoReady_eq)
  have h: "pi_process ?info < length (children demoReady)"
    by (simp add: demoReady_eq)
  have own: "owns demoReady (Pid 4242) 0"
    by (simp add: owns_def demoReady_eq)
  have before: "c_phase (children demoReady ! 0) = Running"
    by (simp add: demoReady_eq)
  have now: "(Pid 4242, 0, 5000) \<in> set (stopTimers (run demoStopping [])) \<and>
      \<not> crashed (run demoStopping []) \<and> has (run demoStopping []) (Pid 4242) \<and>
      c_phase (children (run demoStopping []) ! 0) = Running \<and>
      c_signals (children (run demoStopping []) ! 0) = [SIGTERM]"
    by (simp add: demoStopping_eq has_def)
  have mid: "(Pid 4242, 0, 5000) \<in> set (stopTimers (run demoStopping [ChildExit 0 None])) \<and>
      \<not> crashed (run demoStopping [ChildExit 0 None]) \<and>
      has (run demoStopping [ChildExit 0 None]) (Pid 4242) \<and>
      c_phase (children (run demoStopping [ChildExit 0 None]) ! 0) = Exited \<and>
      c_signals (children (run demoStopping [ChildExit 0 None]) ! 0) = [SIGTERM]"
    by (simp add: demo_exit_state has_def)
  have late: "(Pid 4242, 0, 5000) \<in> set (stopTimers (run demoStopping [ChildExit 0 None, ChildClose 0])) \<and>
      \<not> crashed (run demoStopping [ChildExit 0 None, ChildClose 0]) \<and>
      \<not> has (run demoStopping [ChildExit 0 None, ChildClose 0]) (Pid 4242) \<and>
      c_signals (children (run demoStopping [ChildExit 0 None, ChildClose 0]) ! 0) = [SIGTERM]"
    by (simp only: demo_stopped_run) (simp add: demoStopped_eq has_def)
  from stop_escalation [OF info h demo_stop]
  have fires: "\<forall>es. (Pid 4242, 0, 5000) \<in> set (stopTimers (run demoStopping es)) \<and>
        \<not> crashed (run demoStopping es) \<longrightarrow>
      c_signals (children (step (run demoStopping es) (EscalationTimer (Pid 4242) 0)) ! 0)
        = c_signals (children (run demoStopping es) ! 0)
            @ (if has (run demoStopping es) (Pid 4242) \<and>
                  c_phase (children (run demoStopping es) ! 0) = Running then [SIGKILL] else [])"
    by simp
  from stop_escalation [OF info h demo_stop] before
  have sigterm: "c_signals (children demoStopping ! 0) = c_signals (children demoReady ! 0) @ [SIGTERM]"
    by simp
  then have s: "c_signals (children demoStopping ! 0) = [SIGTERM]"
    by (simp add: demoReady_eq)
  have "c_signals (children (step (run demoStopping []) (EscalationTimer (Pid 4242) 0)) ! 0)
      = c_signals (children (run demoStopping []) ! 0)
          @ (if has (run demoStopping []) (Pid 4242) \<and>
                c_phase (children (run demoStopping []) ! 0) = Running then [SIGKILL] else [])"
    using fires now by blast
  with now have a: "c_signals (children (step (run demoStopping []) (EscalationTimer (Pid 4242) 0)) ! 0)
      = [SIGTERM, SIGKILL]"
    by simp
  have "c_signals (children (step (run demoStopping [ChildExit 0 None]) (EscalationTimer (Pid 4242) 0)) ! 0)
      = c_signals (children (run demoStopping [ChildExit 0 None]) ! 0)
          @ (if has (run demoStopping [ChildExit 0 None]) (Pid 4242) \<and>
                c_phase (children (run demoStopping [ChildExit 0 None]) ! 0) = Running
             then [SIGKILL] else [])"
    using fires mid by blast
  with mid have m: "c_signals (children (step (run demoStopping [ChildExit 0 None])
      (EscalationTimer (Pid 4242) 0)) ! 0) = [SIGTERM]"
    by simp
  have "c_signals (children (step (run demoStopping [ChildExit 0 None, ChildClose 0])
        (EscalationTimer (Pid 4242) 0)) ! 0)
      = c_signals (children (run demoStopping [ChildExit 0 None, ChildClose 0]) ! 0)
          @ (if has (run demoStopping [ChildExit 0 None, ChildClose 0]) (Pid 4242) \<and>
                c_phase (children (run demoStopping [ChildExit 0 None, ChildClose 0]) ! 0) = Running
             then [SIGKILL] else [])"
    using fires late by blast
  with late have b: "c_signals (children (step (run demoStopping [ChildExit 0 None, ChildClose 0])
      (EscalationTimer (Pid 4242) 0)) ! 0) = [SIGTERM]"
    by simp
  show ?thesis
    using info demo_stop own before s now mid late a m b by simp
qed

text \<open>
  The timer is not disarmed when the stop settles: after the child has exited and closed
  and the promise of \<^verbatim>\<open>stop\<close> is resolved, the timer is still pending, and fires later.

  Nor is "the process has not exited" the condition the timer tests. When a second server
  was given the pid of a first one that had exited but not closed, the \<^verbatim>\<open>'close'\<close> of the
  first removes the id from the registry: the timer of a \<^verbatim>\<open>stop\<close> on the second then
  fires while that process is running, and sends nothing.

  And \<^verbatim>\<open>stop\<close> on a child that has exited but not closed sends no \<^verbatim>\<open>SIGTERM\<close>.
\<close>

theorem escalation_timer_outlives_stop:
  "stopResolved (run demoStopping [ChildExit 0 None, ChildClose 0]) (0, 0) \<and>
   c_phase (children (run demoStopping [ChildExit 0 None, ChildClose 0]) ! 0) = Closed \<and>
   (Pid 4242, 0, 5000) \<in> set (stopTimers (run demoStopping [ChildExit 0 None, ChildClose 0])) \<and>
   stopTimers (step (run demoStopping [ChildExit 0 None, ChildClose 0]) (EscalationTimer (Pid 4242) 0)) = [] \<and>
   stop demoReused (Pid 4242) = (Inr (1, 0), demoReusedStopping) \<and>
   c_signals (children demoReusedStopping ! 1) = [SIGTERM] \<and>
   (Pid 4242, 1, 5000) \<in> set (stopTimers (run demoReusedStopping [ChildClose 0])) \<and>
   c_phase (children (run demoReusedStopping [ChildClose 0]) ! 1) = Running \<and>
   \<not> stopResolved (run demoReusedStopping [ChildClose 0]) (1, 0) \<and>
   c_signals (children (run demoReusedStopping [ChildClose 0, EscalationTimer (Pid 4242) 1]) ! 1)
     = [SIGTERM] \<and>
   c_phase (children (run demoReusedStopping [ChildClose 0, EscalationTimer (Pid 4242) 1]) ! 1)
     = Running \<and>
   stopTimers (run demoReusedStopping [ChildClose 0, EscalationTimer (Pid 4242) 1]) = [] \<and>
   c_phase (children demoTwo ! 0) = Exited \<and>
   fst (stop demoTwo (Pid 4242)) = Inr (0, 0) \<and>
   c_signals (children (snd (stop demoTwo (Pid 4242))) ! 0) = []"
proof -
  have a: "stopResolved (run demoStopping [ChildExit 0 None, ChildClose 0]) (0, 0) \<and>
      c_phase (children (run demoStopping [ChildExit 0 None, ChildClose 0]) ! 0) = Closed \<and>
      (Pid 4242, 0, 5000) \<in> set (stopTimers (run demoStopping [ChildExit 0 None, ChildClose 0])) \<and>
      stopTimers (step (run demoStopping [ChildExit 0 None, ChildClose 0])
                    (EscalationTimer (Pid 4242) 0)) = []"
    by (simp only: demo_stopped_run)
      (simp add: demoStopped_eq stopResolved_def step_def escalationDelay_def has_def)
  have b: "stop demoReused (Pid 4242) = (Inr (1, 0), demoReusedStopping)"
    by (simp add: demoReusedStopping_def) (simp add: demoReused_eq stop_def Let_def)
  have c: "c_signals (children demoReusedStopping ! 1) = [SIGTERM]"
    by (simp add: demoReusedStopping_eq)
  have r1: "run demoReusedStopping [ChildClose 0] = step demoReusedStopping (ChildClose 0)"
    "run demoReusedStopping [ChildClose 0, EscalationTimer (Pid 4242) 1]
       = step (step demoReusedStopping (ChildClose 0)) (EscalationTimer (Pid 4242) 1)"
    by simp_all
  have d: "(Pid 4242, 1, 5000) \<in> set (stopTimers (run demoReusedStopping [ChildClose 0])) \<and>
      c_phase (children (run demoReusedStopping [ChildClose 0]) ! 1) = Running \<and>
      \<not> stopResolved (run demoReusedStopping [ChildClose 0]) (1, 0)"
    by (simp only: r1 demo_reused_close_state) (simp add: stopResolved_def)
  have e: "c_signals (children (run demoReusedStopping [ChildClose 0, EscalationTimer (Pid 4242) 1]) ! 1)
        = [SIGTERM] \<and>
      c_phase (children (run demoReusedStopping [ChildClose 0, EscalationTimer (Pid 4242) 1]) ! 1)
        = Running \<and>
      stopTimers (run demoReusedStopping [ChildClose 0, EscalationTimer (Pid 4242) 1]) = []"
    by (simp only: r1 demo_reused_close_state) (simp add: step_def escalationDelay_def has_def)
  have f: "c_phase (children demoTwo ! 0) = Exited \<and> fst (stop demoTwo (Pid 4242)) = Inr (0, 0) \<and>
      c_signals (children (snd (stop demoTwo (Pid 4242))) ! 0) = []"
    by (simp add: demoTwo_eq stop_def Let_def upd_child_def kill_def)
  show ?thesis
    using a b c d e f by simp
qed

subsection \<open>C6: stopAll\<close>

text \<open>
  C6. In a state of the supervisor, \<^verbatim>\<open>stopAll()\<close> calls \<^verbatim>\<open>stop\<close> for every id of the
  registry, in order and before any event is delivered, and every call yields a promise on
  that id's child, also for a child that has exited and not yet closed. Whatever events
  follow, the batch is never rejected; it is fulfilled exactly when every child tracked at
  the call has emitted \<^verbatim>\<open>'close'\<close>; and when it is fulfilled the registry is empty. (The
  events are those of the children and the timers: no \<^verbatim>\<open>start\<close> is called between the
  call of \<^verbatim>\<open>stopAll\<close> and its fulfilment.)
\<close>

theorem stopAll_waits_for_all:
  assumes "wf w" and "stopAll w = (rs, w')"
  shows "list_all2 (\<lambda>(p, info) r. \<exists>k. r = Inr (pi_process info, k)) (processes w) rs \<and>
         (\<forall>es e. promiseAll (run w' es) rs \<noteq> RejectedWith e) \<and>
         (\<forall>es. promiseAll (run w' es) rs = Fulfilled \<longleftrightarrow>
            (\<forall>(p, info) \<in> set (processes w).
                c_phase (children (run w' es) ! pi_process info) = Closed)) \<and>
         (\<forall>es. promiseAll (run w' es) rs = Fulfilled \<longrightarrow> processes (run w' es) = [])"
proof -
  let ?ps = "map fst (processes w)"
  have rs: "rs = fst (stopAll_loop w ?ps)" and w': "w' = snd (stopAll_loop w ?ps)"
    using assms(2) by (simp_all add: stopAll_def)
  have "\<forall>p \<in> set ?ps. stoppable w p"
    using wf_stoppable [OF assms(1)] by auto
  then have ok0: "list_all2 (stop_ok w w') ?ps rs"
    unfolding rs w' by (rule stop_ok_loop)
  have ok: "list_all2 (stop_ok w (run w' es)) ?ps rs" for es
    using ok0 by (rule list_all2_mono) (rule stop_ok_run)
  have keys: "fst ` set (processes w') = set ?ps"
    by (simp add: w')
  have result: "\<exists>p info k. (p, info) \<in> set (processes w) \<and> r = Inr (pi_process info, k) \<and>
        stop_safe p (pi_process info, k) (run w' es) \<and> stop_live (pi_process info, k) (run w' es)"
    if "r \<in> set rs" for r es
  proof -
    from list_all2_right_elem [OF ok that] obtain p where "stop_ok w (run w' es) p r"
      by blast
    then show ?thesis
      by (auto simp add: stop_ok_def dest: map_of_SomeD)
  qed
  have entry: "\<exists>k. Inr (pi_process info, k) \<in> set rs \<and>
        stop_safe p (pi_process info, k) (run w' es) \<and> stop_live (pi_process info, k) (run w' es)"
    if "(p, info) \<in> set (processes w)" for p info es
  proof -
    from that have "p \<in> set ?ps" by force
    from list_all2_left_elem [OF ok this] obtain r
      where "r \<in> set rs" and "stop_ok w (run w' es) p r"
      by blast
    moreover have "map_of (processes w) p = Some info"
      using wf_stoppable [OF assms(1) that] by simp
    ultimately show ?thesis
      by (auto simp add: stop_ok_def)
  qed
  have each: "list_all2 (\<lambda>(p, info) r. \<exists>k. r = Inr (pi_process info, k)) (processes w) rs"
  proof -
    have "list_all2 (\<lambda>x r. stop_ok w w' (fst x) r) (processes w) rs"
      using ok0 by (simp add: list_all2_map1)
    then show ?thesis
    proof (rule list.rel_mono_strong)
      fix x r
      assume "x \<in> set (processes w)" and "stop_ok w w' (fst x) r"
      moreover from this(1) have "map_of (processes w) (fst x) = Some (snd x)"
        using wf_stoppable [OF assms(1), of "fst x" "snd x"] by simp
      ultimately show "(case x of (p, info) \<Rightarrow> \<lambda>r. \<exists>k. r = Inr (pi_process info, k)) r"
        by (auto simp add: stop_ok_def split_beta)
    qed
  qed
  have never: "promiseAll (run w' es) rs \<noteq> RejectedWith e" for es e
  proof
    assume "promiseAll (run w' es) rs = RejectedWith e"
    then have "Inl e \<in> set rs"
      by (rule promiseAll_RejectedWith)
    from result [OF this] show False
      by simp
  qed
  have closed_iff: "promiseAll (run w' es) rs = Fulfilled \<longleftrightarrow>
      (\<forall>(p, info) \<in> set (processes w). c_phase (children (run w' es) ! pi_process info) = Closed)"
    for es
  proof
    assume f: "promiseAll (run w' es) rs = Fulfilled"
    show "\<forall>(p, info) \<in> set (processes w). c_phase (children (run w' es) ! pi_process info) = Closed"
    proof (clarify)
      fix p info
      assume "(p, info) \<in> set (processes w)"
      from entry [OF this, of es] obtain k where "Inr (pi_process info, k) \<in> set rs"
        and safe: "stop_safe p (pi_process info, k) (run w' es)"
        by blast
      with f have "stopResolved (run w' es) (pi_process info, k)"
        by (auto simp add: promiseAll_Fulfilled)
      with safe show "c_phase (children (run w' es) ! pi_process info) = Closed"
        by (simp add: stop_safe_def)
    qed
  next
    assume c: "\<forall>(p, info) \<in> set (processes w). c_phase (children (run w' es) ! pi_process info) = Closed"
    have "\<exists>pr. r = Inr pr \<and> stopResolved (run w' es) pr" if "r \<in> set rs" for r
    proof -
      from result [OF that, of es] obtain p info k where "(p, info) \<in> set (processes w)"
        and r: "r = Inr (pi_process info, k)"
        and live: "stop_live (pi_process info, k) (run w' es)"
        by blast
      with c have "c_phase (children (run w' es) ! pi_process info) = Closed"
        by auto
      with live r show ?thesis
        by (simp add: stop_live_def)
    qed
    then show "promiseAll (run w' es) rs = Fulfilled"
      by (simp add: promiseAll_Fulfilled)
  qed
  have empty: "processes (run w' es) = []" if f: "promiseAll (run w' es) rs = Fulfilled" for es
  proof (rule ccontr)
    assume "processes (run w' es) \<noteq> []"
    then obtain p where p: "p \<in> fst ` set (processes (run w' es))"
      by (cases "processes (run w' es)") auto
    with keys_run [of w' es] keys have "p \<in> set ?ps"
      by blast
    then obtain info where "(p, info) \<in> set (processes w)"
      by auto
    from entry [OF this, of es] obtain k where "Inr (pi_process info, k) \<in> set rs"
      and safe: "stop_safe p (pi_process info, k) (run w' es)"
      by blast
    with f have "stopResolved (run w' es) (pi_process info, k)"
      by (auto simp add: promiseAll_Fulfilled)
    with safe have "\<not> has (run w' es) p"
      by (simp add: stop_safe_def)
    with p show False
      by (simp add: has_iff)
  qed
  show ?thesis
    using each never closed_iff empty by blast
qed

theorem stopAll_waits_for_all_witness:
  "wf demoTwo \<and> map fst (processes demoTwo) = [Pid 4242, Pid 4243] \<and>
   c_phase (children demoTwo ! 0) = Exited \<and> c_phase (children demoTwo ! 1) = Running \<and>
   stopAll demoTwo = (demoBatch, demoTwoStopping) \<and> demoBatch = [Inr (0, 0), Inr (1, 0)] \<and>
   promiseAll (run demoTwoStopping [ChildClose 0]) demoBatch = StillPending \<and>
   promiseAll (run demoTwoStopping [ChildClose 0, ChildExit 1 None, ChildClose 1]) demoBatch
     = Fulfilled \<and>
   processes (run demoTwoStopping [ChildClose 0, ChildExit 1 None, ChildClose 1]) = []"
proof -
  let ?es = "[ChildClose 0, ChildExit 1 None, ChildClose 1]"
  note all = stopAll_waits_for_all [OF wf_demoTwo demo_stopAll]
  have keys: "processes demoTwo =
      [(Pid 4242, \<lparr>pi_id = Pid 4242, pi_port = 5173, pi_projectPath = ''/app'', pi_startTime = 0,
                pi_process = 0\<rparr>),
       (Pid 4243, \<lparr>pi_id = Pid 4243, pi_port = 5174, pi_projectPath = ''/app'', pi_startTime = 1,
                pi_process = 1\<rparr>)]"
    by (simp add: demoTwo_eq)
  have closed: "\<forall>(p, info) \<in> set (processes demoTwo).
      c_phase (children (run demoTwoStopping ?es) ! pi_process info) = Closed"
    unfolding keys using demo_batch_done by simp
  from all closed have fulfilled: "promiseAll (run demoTwoStopping ?es) demoBatch = Fulfilled"
    by blast
  with all have gone: "processes (run demoTwoStopping ?es) = []"
    by blast
  have phases: "c_phase (children demoTwo ! 0) = Exited \<and> c_phase (children demoTwo ! 1) = Running"
    by (simp add: demoTwo_eq)
  show ?thesis
    using wf_demoTwo keys phases demo_stopAll demo_batch_pending fulfilled gone
    by (simp add: demoBatch_def)
qed

end
